theory Spec2Isabelle
  imports Complex_Main
begin

section \<open>LEGO Art Creator: the colour palette and the nearest-colour search\<close>

text \<open>
  The development follows \<^verbatim>\<open>src/script.js\<close>. The program keeps its document in
  module-level variables (\<^verbatim>\<open>currentColor\<close>, \<^verbatim>\<open>canvasSize\<close>, \<^verbatim>\<open>legoGrid\<close>,
  \<^verbatim>\<open>undoStack\<close>, \<^verbatim>\<open>isEraserMode\<close>); the DOM, the console, \<^verbatim>\<open>alert\<close> and
  \<^verbatim>\<open>confirm\<close> are the environment. Writes to the DOM are not part of the model,
  except for the set of brick elements, which decides whether \<^verbatim>\<open>redrawCanvas\<close>
  throws; what \<^verbatim>\<open>confirm\<close> answers and what the canvas returns are parameters of
  the operations.
\<close>

subsection \<open>The palette (script.js, lines 19-40)\<close>

record lego_color =
  color_name :: string
  hex :: string

definition legoColors :: "lego_color list" where
  "legoColors =
    [\<lparr>color_name = ''Bright Red'', hex = ''#C91A09''\<rparr>,
     \<lparr>color_name = ''Bright Blue'', hex = ''#0055BF''\<rparr>,
     \<lparr>color_name = ''Bright Yellow'', hex = ''#F2CD37''\<rparr>,
     \<lparr>color_name = ''Dark Green'', hex = ''#287F46''\<rparr>,
     \<lparr>color_name = ''Bright Orange'', hex = ''#FE8A18''\<rparr>,
     \<lparr>color_name = ''Medium Lavender'', hex = ''#AC78BA''\<rparr>,
     \<lparr>color_name = ''White'', hex = ''#F2F3F2''\<rparr>,
     \<lparr>color_name = ''Black'', hex = ''#05131D''\<rparr>,
     \<lparr>color_name = ''Dark Tan'', hex = ''#958A73''\<rparr>,
     \<lparr>color_name = ''Medium Blue'', hex = ''#5A93DB''\<rparr>,
     \<lparr>color_name = ''Bright Green'', hex = ''#4B9F4A''\<rparr>,
     \<lparr>color_name = ''Dark Orange'', hex = ''#A95500''\<rparr>,
     \<lparr>color_name = ''Light Purple'', hex = ''#E4ADC8''\<rparr>,
     \<lparr>color_name = ''Sand Blue'', hex = ''#6074A1''\<rparr>,
     \<lparr>color_name = ''Dark Red'', hex = ''#720E0F''\<rparr>,
     \<lparr>color_name = ''Lime'', hex = ''#BBE90B''\<rparr>,
     \<lparr>color_name = ''Medium Azur'', hex = ''#36AEBF''\<rparr>,
     \<lparr>color_name = ''Dark Brown'', hex = ''#352100''\<rparr>,
     \<lparr>color_name = ''Light Bluish Gray'', hex = ''#A0A5A9''\<rparr>,
     \<lparr>color_name = ''Dark Bluish Gray'', hex = ''#6C6E68''\<rparr>]"

subsection \<open>JavaScript numbers as far as the colour search needs them\<close>

text \<open>
  A channel value is an integer or \<^verbatim>\<open>NaN\<close> (\<open>None\<close>): \<^verbatim>\<open>parseInt\<close> yields \<^verbatim>\<open>NaN\<close>
  on a string without digits, and arithmetic on \<^verbatim>\<open>undefined\<close> (a read past the end
  of the pixel buffer) yields \<^verbatim>\<open>NaN\<close>. Every arithmetic operation propagates
  \<^verbatim>\<open>NaN\<close>, and every comparison with \<^verbatim>\<open>NaN\<close> is false.

  \<^verbatim>\<open>Math.sqrt\<close> is modelled by the real square root. The script uses its results
  only to compare them with \<^verbatim>\<open><\<close>. For channels from 0 to 255 the arguments are
  integers up to \<open>3 * 255\<^sup>2\<close>, exact as doubles, and the square roots of two different
  such integers differ by more than \<open>10\<^sup>-\<^sup>3\<close>, far more than a rounding error of the
  double square root; so the comparison of the doubles and the comparison of the reals
  agree.
\<close>

type_synonym jsint = "int option"

definition js_sub :: "jsint \<Rightarrow> jsint \<Rightarrow> jsint" where
  "js_sub x y = (case x of None \<Rightarrow> None | Some a \<Rightarrow> (case y of None \<Rightarrow> None | Some b \<Rightarrow> Some (a - b)))"

definition js_add :: "jsint \<Rightarrow> jsint \<Rightarrow> jsint" where
  "js_add x y = (case x of None \<Rightarrow> None | Some a \<Rightarrow> (case y of None \<Rightarrow> None | Some b \<Rightarrow> Some (a + b)))"

definition Math_pow2 :: "jsint \<Rightarrow> jsint" where
  "Math_pow2 x = (case x of None \<Rightarrow> None | Some a \<Rightarrow> Some (a ^ 2))"

definition Math_sqrt :: "jsint \<Rightarrow> real option" where
  "Math_sqrt x = (case x of None \<Rightarrow> None | Some a \<Rightarrow> Some (sqrt (real_of_int a)))"

text \<open>The variable \<^verbatim>\<open>smallestDistance\<close> starts at \<^verbatim>\<open>Infinity\<close> and then holds distances.\<close>

datatype bound = Infinity | Dist real

fun js_less :: "real option \<Rightarrow> bound \<Rightarrow> bool" where
  "js_less None _ = False"
| "js_less (Some d) Infinity = True"
| "js_less (Some d) (Dist m) = (d < m)"

subsection \<open>hexToRgb (script.js, lines 585-596)\<close>

definition hexDigit :: "char \<Rightarrow> nat option" where
  "hexDigit c =
     (let n = (of_char c :: nat) in
      if 48 \<le> n \<and> n \<le> 57 then Some (n - 48)
      else if 65 \<le> n \<and> n \<le> 70 then Some (n - 55)
      else if 97 \<le> n \<and> n \<le> 102 then Some (n - 87)
      else None)"

text \<open>
  \<^verbatim>\<open>parseInt(s, 16)\<close>: leading white space is skipped, then a sign and a prefix
  \<^verbatim>\<open>0x\<close> or \<^verbatim>\<open>0X\<close> are taken if present, then the longest run of hexadecimal
  digits is read; without a digit the result is \<^verbatim>\<open>NaN\<close>. White space is tab, line
  feed, vertical tab, form feed, carriage return and space (the blanks beyond ASCII
  that \<^verbatim>\<open>parseInt\<close> also skips are not single characters of a \<open>string\<close>).
\<close>

definition is_blank :: "char \<Rightarrow> bool" where
  "is_blank c = (let n = (of_char c :: nat) in (9 \<le> n \<and> n \<le> 13) \<or> n = 32)"

definition parseInt16 :: "string \<Rightarrow> jsint" where
  "parseInt16 s =
     (let s1 = dropWhile is_blank s;
          negative = (take 1 s1 = ''-'');
          s2 = (if take 1 s1 = ''-'' \<or> take 1 s1 = ''+'' then drop 1 s1 else s1);
          s3 = (if take 2 s2 = ''0x'' \<or> take 2 s2 = ''0X'' then drop 2 s2 else s2);
          ds = takeWhile (\<lambda>c. hexDigit c \<noteq> None) s3
      in if ds = [] then None
         else Some ((if negative then - 1 else 1)
                    * int (foldl (\<lambda>a c. 16 * a + the (hexDigit c)) 0 ds)))"

definition substring :: "string \<Rightarrow> nat \<Rightarrow> nat \<Rightarrow> string" where
  "substring s a b = take (max a b - min a b) (drop (min a b) s)"

record rgb =
  rgb_r :: jsint
  rgb_g :: jsint
  rgb_b :: jsint

text \<open>\<^verbatim>\<open>hex.replace('#', '')\<close> removes the first \<^verbatim>\<open>#\<close> of the string, if there is one.\<close>

definition hexToRgb :: "string \<Rightarrow> rgb" where
  "hexToRgb h =
     (let h' = remove1 (CHR ''#'') h in
      \<lparr>rgb_r = parseInt16 (substring h' 0 2),
       rgb_g = parseInt16 (substring h' 2 4),
       rgb_b = parseInt16 (substring h' 4 6)\<rparr>)"

subsection \<open>findClosestLegoColor (script.js, lines 552-578)\<close>

definition distance :: "jsint \<Rightarrow> jsint \<Rightarrow> jsint \<Rightarrow> rgb \<Rightarrow> real option" where
  "distance r g b legoRGB =
     Math_sqrt (js_add (js_add (Math_pow2 (js_sub r (rgb_r legoRGB)))
                               (Math_pow2 (js_sub g (rgb_g legoRGB))))
                       (Math_pow2 (js_sub b (rgb_b legoRGB))))"

text \<open>
  The body of the \<^verbatim>\<open>forEach\<close> callback, on the pair of the two local variables
  \<^verbatim>\<open>closestColor\<close> and \<^verbatim>\<open>smallestDistance\<close>.
\<close>

definition closest_step :: "jsint \<Rightarrow> jsint \<Rightarrow> jsint \<Rightarrow> string \<times> bound \<Rightarrow> lego_color \<Rightarrow> string \<times> bound" where
  "closest_step r g b acc legoColor =
     (let d = distance r g b (hexToRgb (hex legoColor)) in
      if js_less d (snd acc) then (hex legoColor, Dist (the d)) else acc)"

definition findClosestLegoColor :: "jsint \<Rightarrow> jsint \<Rightarrow> jsint \<Rightarrow> string" where
  "findClosestLegoColor r g b =
     fst (foldl (closest_step r g b) (hex (legoColors ! 0), Infinity) legoColors)"

text \<open>
  The squared distance of the specification, \<open>(r1-r2)\<^sup>2 + (g1-g2)\<^sup>2 + (b1-b2)\<^sup>2\<close>,
  between an input and a palette entry. \<open>paletteRGB\<close> spells out the palette of lines
  19-40 as channel values, in palette order: \<^verbatim>\<open>#C91A09\<close> is red \<open>0xC9 = 201\<close>, green
  \<open>0x1A = 26\<close>, blue \<open>0x09 = 9\<close>, and so on. The list is written down independently
  of \<open>hexToRgb\<close>; that \<open>hexToRgb\<close> reads exactly these values from the colour codes
  is proved below (\<open>triple_palette\<close>).
\<close>

definition paletteRGB :: "(int \<times> int \<times> int) list" where
  "paletteRGB =
    [(201, 26, 9), (0, 85, 191), (242, 205, 55), (40, 127, 70), (254, 138, 24),
     (172, 120, 186), (242, 243, 242), (5, 19, 29), (149, 138, 115),
     (90, 147, 219), (75, 159, 74), (169, 85, 0), (228, 173, 200),
     (96, 116, 161), (114, 14, 15), (187, 233, 11), (54, 174, 191),
     (53, 33, 0), (160, 165, 169), (108, 110, 104)]"

definition triple :: "lego_color \<Rightarrow> int \<times> int \<times> int" where
  "triple c = (let v = hexToRgb (hex c) in (the (rgb_r v), the (rgb_g v), the (rgb_b v)))"

definition sqdist :: "int \<Rightarrow> int \<Rightarrow> int \<Rightarrow> int \<times> int \<times> int \<Rightarrow> int" where
  "sqdist r g b p = (case p of (pr, pg, pb) \<Rightarrow> (r - pr)\<^sup>2 + (g - pg)\<^sup>2 + (b - pb)\<^sup>2)"

definition parsed :: "lego_color \<Rightarrow> bool" where
  "parsed c = (\<exists>pr pg pb. hexToRgb (hex c) = \<lparr>rgb_r = Some pr, rgb_g = Some pg, rgb_b = Some pb\<rparr>)"

section \<open>The grid document\<close>

subsection \<open>Arrays and the store\<close>

text \<open>
  A grid slot holds \<^verbatim>\<open>null\<close> or a colour string; \<^verbatim>\<open>undefined\<close> is what a read
  finds where nothing was stored. A JavaScript array is an object: besides its
  elements it can carry properties under keys that are not indices (a write at a
  negative index creates one and leaves the elements alone). A write at an index past
  the end extends the array; the slots in between read as \<^verbatim>\<open>undefined\<close>.
\<close>

datatype cell = Undefined | Null | Color string

record jsarray =
  elems :: "cell list"
  props :: "(int \<times> cell) list"

definition array_set :: "jsarray \<Rightarrow> int \<Rightarrow> cell \<Rightarrow> jsarray" where
  "array_set a i v =
     (if i < 0 then a\<lparr>props := (i, v) # filter (\<lambda>p. fst p \<noteq> i) (props a)\<rparr>
      else if nat i < length (elems a) then a\<lparr>elems := (elems a)[nat i := v]\<rparr>
      else a\<lparr>elems := elems a @ replicate (nat i - length (elems a)) Undefined @ [v]\<rparr>)"

definition array_get :: "jsarray \<Rightarrow> int \<Rightarrow> cell" where
  "array_get a i =
     (if i < 0 then (case map_of (props a) i of None \<Rightarrow> Undefined | Some v \<Rightarrow> v)
      else if nat i < length (elems a) then elems a ! nat i
      else Undefined)"

text \<open>The spread copy \<^verbatim>\<open>[...row]\<close>: a new array with the elements of \<^verbatim>\<open>row\<close>.\<close>

definition spread :: "jsarray \<Rightarrow> jsarray" where
  "spread a = \<lparr>elems = elems a, props = []\<rparr>"

text \<open>
  Row arrays are mutated in place (\<^verbatim>\<open>legoGrid[row][col] = ...\<close>), so they live in a
  store and the grid holds references to them. The outer arrays (the grid itself, a
  snapshot, the undo stack) are never written at an index after they are built: the
  program only rebinds \<^verbatim>\<open>legoGrid\<close> and pushes, pops and shifts \<^verbatim>\<open>undoStack\<close>. An
  outer array is therefore the list of the references it holds.
\<close>

type_synonym ref = nat

text \<open>
  One part of the page belongs to the state: the brick elements that
  \<open>initializeCanvas\<close> has put there, each with its \<^verbatim>\<open>dataset.row\<close> and
  \<^verbatim>\<open>dataset.col\<close>, in document order. \<^verbatim>\<open>redrawCanvas\<close> reads the grid at the
  coordinates of every one of them.
\<close>

record state =
  currentColor :: string
  canvasSize :: nat
  legoGrid :: "ref list"
  undoStack :: "ref list list"
  isEraserMode :: bool
  bricks :: "(nat \<times> nat) list"
  heap :: "ref \<Rightarrow> jsarray"
  fresh :: ref

definition alloc :: "jsarray \<Rightarrow> state \<Rightarrow> ref \<times> state" where
  "alloc a s = (fresh s, s\<lparr>heap := (heap s)(fresh s := a), fresh := Suc (fresh s)\<rparr>)"

fun alloc_all :: "jsarray list \<Rightarrow> state \<Rightarrow> ref list \<times> state" where
  "alloc_all [] s = ([], s)"
| "alloc_all (a # as) s =
     (case alloc a s of (p, s1) \<Rightarrow>
        (case alloc_all as s1 of (ps, s2) \<Rightarrow> (p # ps, s2)))"

text \<open>How an event handler ends: it returns, or it stops early.\<close>

datatype outcome =
    Done
  | NothingToUndo  \<comment> \<open>\<^verbatim>\<open>alert('Nothing to undo!'); return\<close>\<close>
  | DrawError      \<comment> \<open>\<^verbatim>\<open>alert('Error processing image: ...'); return\<close>\<close>
  | TypeError      \<comment> \<open>uncaught: a property of \<^verbatim>\<open>undefined\<close> was read or written\<close>

subsection \<open>Module state and start-up (script.js, lines 8-13 and 45-55)\<close>

definition initial :: state where
  "initial =
     \<lparr>currentColor = ''#FF0000'', canvasSize = 32, legoGrid = [], undoStack = [],
      isEraserMode = False, bricks = [],
      heap = (\<lambda>_. \<lparr>elems = [], props = []\<rparr>), fresh = 0\<rparr>"

definition selectColor :: "string \<Rightarrow> state \<Rightarrow> state" where
  "selectColor colorHex s = s\<lparr>currentColor := colorHex\<rparr>"

text \<open>
  \<^verbatim>\<open>Array(canvasSize).fill(null).map(() => Array(canvasSize).fill(null))\<close>: one new
  array per row. The page is emptied and gets one brick per cell, row by row.
\<close>

definition initializeCanvas :: "state \<Rightarrow> state" where
  "initializeCanvas s =
     (case alloc_all (replicate (canvasSize s)
                        \<lparr>elems = replicate (canvasSize s) Null, props = []\<rparr>) s of
        (rows, s1) \<Rightarrow>
          s1\<lparr>legoGrid := rows,
             bricks := List.product [0..<canvasSize s] [0..<canvasSize s]\<rparr>)"

definition startup :: state where
  "startup = selectColor (hex (legoColors ! 0)) (initializeCanvas initial)"

subsection \<open>saveState and undo (script.js, lines 276-302)\<close>

text \<open>
  \<open>saveState\<close> copies every row of the grid into a new array, pushes the copy and
  shifts the oldest entry out when the stack has grown past 20. \<open>undo\<close> pops the newest
  entry, binds \<^verbatim>\<open>legoGrid\<close> to it and calls \<^verbatim>\<open>redrawCanvas\<close>.

  \<^verbatim>\<open>redrawCanvas\<close> (lines 307-329) goes through the bricks of the page and reads
  \<^verbatim>\<open>legoGrid[row][col]\<close> for each. It writes the page only, but the read throws an
  uncaught \<^verbatim>\<open>TypeError\<close> at the first brick whose row the grid does not have; a
  column the row does not have reads as \<^verbatim>\<open>undefined\<close> and throws nothing. The
  variables keep the values they had when it was called.
\<close>

fun redraw_bricks :: "(nat \<times> nat) list \<Rightarrow> state \<Rightarrow> outcome" where
  "redraw_bricks [] s = Done"
| "redraw_bricks ((row, col) # rest) s =
     (if row < length (legoGrid s) then redraw_bricks rest s else TypeError)"

definition redrawCanvas :: "state \<Rightarrow> outcome" where
  "redrawCanvas s = redraw_bricks (bricks s) s"

definition saveState :: "state \<Rightarrow> state" where
  "saveState s =
     (case alloc_all (map (\<lambda>row. spread (heap s row)) (legoGrid s)) s of
        (stateCopy, s1) \<Rightarrow>
          (let stack = undoStack s1 @ [stateCopy] in
           s1\<lparr>undoStack := (if length stack > 20 then tl stack else stack)\<rparr>))"

definition undo :: "state \<Rightarrow> outcome \<times> state" where
  "undo s =
     (if length (undoStack s) = 0 then (NothingToUndo, s)
      else (let s1 = s\<lparr>legoGrid := last (undoStack s), undoStack := butlast (undoStack s)\<rparr>
            in (redrawCanvas s1, s1)))"

subsection \<open>placeBrick and the tools (script.js, lines 178-198, 245-258, 674-682)\<close>

text \<open>
  The assignment \<^verbatim>\<open>legoGrid[row][col] = v\<close>. Where \<^verbatim>\<open>legoGrid[row]\<close> is
  \<^verbatim>\<open>undefined\<close> the assignment throws a \<^verbatim>\<open>TypeError\<close>. \<open>placeBrick\<close> makes this
  assignment after \<open>saveState\<close>; its third argument, the brick element, and the
  calls of \<^verbatim>\<open>playSnapEffect\<close> and \<^verbatim>\<open>updateProgress\<close> concern the page only.
\<close>

definition grid_assign :: "int \<Rightarrow> int \<Rightarrow> cell \<Rightarrow> state \<Rightarrow> outcome \<times> state" where
  "grid_assign row col v s =
     (if 0 \<le> row \<and> nat row < length (legoGrid s)
      then (let p = legoGrid s ! nat row in
            (Done, s\<lparr>heap := (heap s)(p := array_set (heap s p) col v)\<rparr>))
      else (TypeError, s))"

definition placeBrick :: "int \<Rightarrow> int \<Rightarrow> state \<Rightarrow> outcome \<times> state" where
  "placeBrick row col s =
     (let s1 = saveState s in
      if isEraserMode s1 then grid_assign row col Null s1
      else grid_assign row col (Color (currentColor s1)) s1)"

definition toggleEraser :: "state \<Rightarrow> state" where
  "toggleEraser s = s\<lparr>isEraserMode := \<not> isEraserMode s\<rparr>"

definition clearCanvas :: "bool \<Rightarrow> state \<Rightarrow> state" where
  "clearCanvas confirmed s = (if confirmed then initializeCanvas (saveState s) else s)"

text \<open>The click handler of a palette swatch (lines 76-80).\<close>

definition swatchClick :: "lego_color \<Rightarrow> state \<Rightarrow> state" where
  "swatchClick color s = (selectColor (hex color) s)\<lparr>isEraserMode := False\<rparr>"

text \<open>The change handler of the size selector (lines 674-682).\<close>

definition canvasSizeChange :: "nat \<Rightarrow> bool \<Rightarrow> state \<Rightarrow> state" where
  "canvasSizeChange newSize confirmed s =
     (let s1 = s\<lparr>canvasSize := newSize\<rparr> in
      if confirmed then initializeCanvas s1 else s1)"

subsection \<open>processImageToLego (script.js, lines 461-541)\<close>

text \<open>
  The image element and what the browser's canvas makes of it are the environment.
  \<open>draw img n\<close> stands for lines 470-492: \<^verbatim>\<open>drawImage(img, 0, 0, n, n)\<close> on an
  \<open>n \<times> n\<close> canvas followed by \<^verbatim>\<open>getImageData(0, 0, n, n).data\<close>, the RGBA bytes of
  the scaled picture in row-major order; \<open>None\<close> when \<^verbatim>\<open>drawImage\<close> throws (the
  script then alerts and returns, after \<open>saveState\<close>). The script itself computes no
  source coordinate: how the picture is resampled is the canvas's business.
\<close>

record image =
  img_width :: nat
  img_height :: nat
  img_data :: "nat list"

text \<open>A read \<^verbatim>\<open>pixels[i]\<close>; past the end it gives \<^verbatim>\<open>undefined\<close>.\<close>

definition pixel_read :: "nat list \<Rightarrow> nat \<Rightarrow> jsint" where
  "pixel_read pixels i = (if i < length pixels then Some (int (pixels ! i)) else None)"

text \<open>
  The two nested \<^verbatim>\<open>for\<close> loops, over the cells in the order the loops visit them.
  An uncaught \<^verbatim>\<open>TypeError\<close> ends the handler and keeps what was written so far.
\<close>

fun fill_cells :: "nat list \<Rightarrow> nat \<Rightarrow> (nat \<times> nat) list \<Rightarrow> state \<Rightarrow> outcome \<times> state" where
  "fill_cells pixels n [] s = (Done, s)"
| "fill_cells pixels n ((row, col) # rest) s =
     (let pixelIndex = (row * n + col) * 4;
          r = pixel_read pixels pixelIndex;
          g = pixel_read pixels (pixelIndex + 1);
          b = pixel_read pixels (pixelIndex + 2);
          closestLegoColor = findClosestLegoColor r g b
      in case grid_assign (int row) (int col) (Color closestLegoColor) s of
           (out, s') \<Rightarrow> if out = Done then fill_cells pixels n rest s' else (out, s'))"

text \<open>
  After the loops the script logs \<^verbatim>\<open>legoGrid[0].slice(0, 5)\<close> (line 521), which
  throws a \<^verbatim>\<open>TypeError\<close> on a grid without rows, and then calls
  \<^verbatim>\<open>redrawCanvas\<close> (line 525).
\<close>

definition processImageToLego ::
    "(image \<Rightarrow> nat \<Rightarrow> nat list option) \<Rightarrow> image \<Rightarrow> state \<Rightarrow> outcome \<times> state" where
  "processImageToLego draw img s =
     (let s1 = saveState s; n = canvasSize s1 in
      case draw img n of
        None \<Rightarrow> (DrawError, s1)
      | Some pixels \<Rightarrow>
          (case fill_cells pixels n (List.product [0..<n] [0..<n]) s1 of
             (out, s2) \<Rightarrow>
               if out \<noteq> Done then (out, s2)
               else if length (legoGrid s2) = 0 then (TypeError, s2)
               else (redrawCanvas s2, s2)))"

subsection \<open>User events\<close>

text \<open>
  The handlers that \<^verbatim>\<open>setupEventListeners\<close>, \<^verbatim>\<open>createBrick\<close> and
  \<^verbatim>\<open>initializeColorPalette\<close> install. A brick click carries the coordinates of the
  brick; the model admits any pair of integers there, which covers every brick the
  page can hold.
\<close>

datatype event =
    ClickBrick int int
  | ClickSwatch nat
  | ClickEraser
  | ClickUndo
  | ClickClear bool
  | ChangeSize nat bool
  | ClickGenerate image

fun fire :: "(image \<Rightarrow> nat \<Rightarrow> nat list option) \<Rightarrow> event \<Rightarrow> state \<Rightarrow> state" where
  "fire draw (ClickBrick row col) s = snd (placeBrick row col s)"
| "fire draw (ClickSwatch i) s = (if i < length legoColors then swatchClick (legoColors ! i) s else s)"
| "fire draw ClickEraser s = toggleEraser s"
| "fire draw ClickUndo s = snd (undo s)"
| "fire draw (ClickClear confirmed) s = clearCanvas confirmed s"
| "fire draw (ChangeSize newSize confirmed) s = canvasSizeChange newSize confirmed s"
| "fire draw (ClickGenerate img) s = snd (processImageToLego draw img s)"

definition run :: "(image \<Rightarrow> nat \<Rightarrow> nat list option) \<Rightarrow> event list \<Rightarrow> state \<Rightarrow> state" where
  "run draw evs s = foldl (\<lambda>s ev. fire draw ev s) s evs"

text \<open>
  The specification's \<open>setCell(row, col, colorOrEmpty)\<close> is, in the program, a choice
  of tool followed by a click on the brick: the eraser for the empty value, a palette
  swatch for a colour.
\<close>

datatype tool = Eraser | Swatch nat

definition pick_tool :: "tool \<Rightarrow> state \<Rightarrow> state" where
  "pick_tool t s =
     (case t of
        Eraser \<Rightarrow> (if isEraserMode s then s else toggleEraser s)
      | Swatch i \<Rightarrow> swatchClick (legoColors ! i) s)"

definition setCell :: "int \<Rightarrow> int \<Rightarrow> tool \<Rightarrow> state \<Rightarrow> outcome \<times> state" where
  "setCell row col t s = placeBrick row col (pick_tool t s)"

definition setCells :: "(int \<times> int \<times> tool) list \<Rightarrow> state \<Rightarrow> state" where
  "setCells ms s = foldl (\<lambda>s m. case m of (row, col, t) \<Rightarrow> snd (setCell row col t s)) s ms"

definition undos :: "nat \<Rightarrow> state \<Rightarrow> state" where
  "undos k s = ((\<lambda>s. snd (undo s)) ^^ k) s"

section \<open>Reading the document out of the store\<close>

text \<open>
  The value of a grid or of a snapshot: the cells of its rows, row by row. The
  well-formedness invariant says that no row array is shared: the rows of the live
  grid and of all snapshots are pairwise different allocated references.
\<close>

definition snapshot :: "state \<Rightarrow> ref list \<Rightarrow> cell list list" where
  "snapshot s rows = map (\<lambda>p. elems (heap s p)) rows"

definition grid :: "state \<Rightarrow> cell list list" where
  "grid s = snapshot s (legoGrid s)"

definition history :: "state \<Rightarrow> cell list list list" where
  "history s = map (snapshot s) (undoStack s)"

definition cell_at :: "state \<Rightarrow> nat \<Rightarrow> nat \<Rightarrow> cell" where
  "cell_at s row col = array_get (heap s (legoGrid s ! row)) (int col)"

definition wf_state :: "state \<Rightarrow> bool" where
  "wf_state s \<longleftrightarrow> distinct (legoGrid s @ concat (undoStack s))
          \<and> (\<forall>p \<in> set (legoGrid s @ concat (undoStack s)). p < fresh s)"

text \<open>
  \<open>touches_live s s'\<close>: between \<open>s\<close> and \<open>s'\<close> only row arrays of the live grid were
  written; every variable and every other array is as before.
\<close>

definition touches_live :: "state \<Rightarrow> state \<Rightarrow> bool" where
  "touches_live s s' \<longleftrightarrow>
     legoGrid s' = legoGrid s \<and> undoStack s' = undoStack s \<and> fresh s' = fresh s
     \<and> currentColor s' = currentColor s \<and> canvasSize s' = canvasSize s
     \<and> isEraserMode s' = isEraserMode s \<and> bricks s' = bricks s
     \<and> (\<forall>p. p \<notin> set (legoGrid s) \<longrightarrow> heap s' p = heap s p)"

text \<open>\<open>page_fits s\<close>: the grid has a row for every brick of the page.\<close>

definition page_fits :: "state \<Rightarrow> bool" where
  "page_fits s \<longleftrightarrow> (\<forall>rc \<in> set (bricks s). fst rc < length (legoGrid s))"

definition push_bounded :: "'a list \<Rightarrow> 'a \<Rightarrow> 'a list" where
  "push_bounded stack x = (if length (stack @ [x]) > 20 then tl (stack @ [x]) else stack @ [x])"

text \<open>Palette closure: a slot that holds a colour holds the code of a palette entry.\<close>

definition in_palette :: "cell \<Rightarrow> bool" where
  "in_palette c = (case c of Color h \<Rightarrow> h \<in> hex ` set legoColors | _ \<Rightarrow> True)"

definition palette_closed :: "cell list list \<Rightarrow> bool" where
  "palette_closed g \<longleftrightarrow> (\<forall>row \<in> set g. \<forall>c \<in> set row. in_palette c)"

definition closed_state :: "state \<Rightarrow> bool" where
  "closed_state s \<longleftrightarrow> currentColor s \<in> hex ` set legoColors
                    \<and> palette_closed (grid s) \<and> (\<forall>g \<in> set (history s). palette_closed g)"

section \<open>Two ways a canvas may scale a picture\<close>

text \<open>
  Modelled from the spec: the nearest-neighbour resampling of section 4.2, which the
  script leaves to the canvas. Target cell \<open>(row, col)\<close> takes the source pixel at
  \<open>srcX = floor(col * sourceWidth / size)\<close>, \<open>srcY = floor(row * sourceHeight / size)\<close>.
\<close>

definition source_pixel :: "image \<Rightarrow> nat \<Rightarrow> nat \<Rightarrow> nat list" where
  "source_pixel img x y = take 4 (drop ((y * img_width img + x) * 4) (img_data img))"

definition nearestNeighbor :: "image \<Rightarrow> nat \<Rightarrow> nat list option" where
  "nearestNeighbor img n =
     Some (concat (map (\<lambda>(row, col). source_pixel img (col * img_width img div n)
                                                   (row * img_height img div n))
                       (List.product [0..<n] [0..<n])))"

text \<open>
  A smoothing canvas, as far as a picture that is reduced needs it: each target pixel
  is the mean of the block of source pixels it covers, and of the one pixel at its
  nearest-neighbour position where the block would be empty (a picture that is
  enlarged). Browsers smooth by default (\<^verbatim>\<open>imageSmoothingEnabled\<close> is \<^verbatim>\<open>true\<close>
  unless a script clears it, and this script does not).
\<close>

definition block_mean :: "image \<Rightarrow> nat \<Rightarrow> nat \<Rightarrow> nat \<Rightarrow> nat \<Rightarrow> nat" where
  "block_mean img n row col k =
     (let w = img_width img; h = img_height img;
          xs = [col * w div n ..< max ((col + 1) * w div n) (col * w div n + 1)];
          ys = [row * h div n ..< max ((row + 1) * h div n) (row * h div n + 1)];
          vs = map (\<lambda>(y, x). img_data img ! ((y * w + x) * 4 + k)) (List.product ys xs)
      in sum_list vs div length vs)"

definition boxFilter :: "image \<Rightarrow> nat \<Rightarrow> nat list option" where
  "boxFilter img n =
     Some (concat (map (\<lambda>(row, col). map (block_mean img n row col) [0..<4])
                       (List.product [0..<n] [0..<n])))"

text \<open>The colour that the loop body of \<open>processImageToLego\<close> computes for a cell.\<close>

definition cell_colour :: "nat list \<Rightarrow> nat \<Rightarrow> nat \<Rightarrow> nat \<Rightarrow> string" where
  "cell_colour pixels n row col =
     findClosestLegoColor (pixel_read pixels ((row * n + col) * 4))
                          (pixel_read pixels ((row * n + col) * 4 + 1))
                          (pixel_read pixels ((row * n + col) * 4 + 2))"

text \<open>
  The index, in the source picture, of the pixel that the nearest-neighbour rule
  assigns to a target cell: row \<open>floor(row * height / n)\<close>, column
  \<open>floor(col * width / n)\<close>.
\<close>

definition source_index :: "image \<Rightarrow> nat \<Rightarrow> nat \<Rightarrow> nat \<Rightarrow> nat" where
  "source_index img n row col =
     (row * img_height img div n) * img_width img + col * img_width img div n"

text \<open>A 4 by 4 picture, opaque: the top left pixel black, the fifteen others white.\<close>

definition corner_picture :: image where
  "corner_picture =
     \<lparr>img_width = 4, img_height = 4,
      img_data = [0, 0, 0, 255] @ concat (replicate 15 [255, 255, 255, 255])\<rparr>"

text \<open>A 4 by 4 picture, opaque, every pixel of another colour.\<close>

definition gradient_picture :: image where
  "gradient_picture =
     \<lparr>img_width = 4, img_height = 4,
      img_data = concat (map (\<lambda>i. [16 * i, 8 * i, 255 - 16 * i, 255]) [0..<16])\<rparr>"


section \<open>The nearest-colour search\<close>

text \<open>\<open>hexToRgb\<close> reads from the twenty colour codes the channel values of \<open>paletteRGB\<close>.\<close>

lemma hexToRgb_palette: "map triple legoColors = paletteRGB"
  by (simp add: paletteRGB_def triple_def legoColors_def hexToRgb_def parseInt16_def is_blank_def
        substring_def hexDigit_def Let_def)

lemma length_paletteRGB: "length paletteRGB = length legoColors"
  using arg_cong [OF hexToRgb_palette, of length] by simp

lemma distance_Some:
  "distance (Some r) (Some g) (Some b) \<lparr>rgb_r = Some pr, rgb_g = Some pg, rgb_b = Some pb\<rparr>
     = Some (sqrt (real_of_int (sqdist r g b (pr, pg, pb))))"
  by (simp add: distance_def Math_sqrt_def js_add_def js_sub_def Math_pow2_def sqdist_def)

lemma distance_parsed:
  "parsed c \<Longrightarrow> distance (Some r) (Some g) (Some b) (hexToRgb (hex c))
     = Some (sqrt (real_of_int (sqdist r g b (triple c))))"
  unfolding parsed_def triple_def by (auto simp: distance_Some Let_def)

lemma closest_step_first:
  "parsed c \<Longrightarrow> closest_step (Some r) (Some g) (Some b) (c0, Infinity) c
     = (hex c, Dist (sqrt (real_of_int (sqdist r g b (triple c)))))"
  by (simp add: closest_step_def distance_parsed)

lemma closest_step_next:
  "parsed c \<Longrightarrow> closest_step (Some r) (Some g) (Some b) (h, Dist (sqrt (real_of_int m))) c
     = (if sqdist r g b (triple c) < m then (hex c, Dist (sqrt (real_of_int (sqdist r g b (triple c)))))
        else (h, Dist (sqrt (real_of_int m))))"
  by (simp add: closest_step_def distance_parsed)

lemma foldl_closest:
  assumes "cs \<noteq> []" and "\<forall>c \<in> set cs. parsed c"
  shows "\<exists>i < length cs.
           foldl (closest_step (Some r) (Some g) (Some b)) (c0, Infinity) cs
             = (hex (cs ! i), Dist (sqrt (real_of_int (sqdist r g b (triple (cs ! i))))))
         \<and> (\<forall>j < length cs. sqdist r g b (triple (cs ! i)) \<le> sqdist r g b (triple (cs ! j)))
         \<and> (\<forall>j < i. sqdist r g b (triple (cs ! i)) < sqdist r g b (triple (cs ! j)))"
  using assms
proof (induction cs rule: rev_nonempty_induct)
  case (single c)
  then show ?case by (simp add: closest_step_first)
next
  case (snoc c cs)
  let ?D = "\<lambda>x. sqdist r g b (triple x)"
  from snoc obtain i where i: "i < length cs"
    and f: "foldl (closest_step (Some r) (Some g) (Some b)) (c0, Infinity) cs
             = (hex (cs ! i), Dist (sqrt (real_of_int (?D (cs ! i)))))"
    and mn: "\<forall>j < length cs. ?D (cs ! i) \<le> ?D (cs ! j)"
    and fst: "\<forall>j < i. ?D (cs ! i) < ?D (cs ! j)"
    by auto
  from snoc.prems have pc: "parsed c" by simp
  show ?case
  proof (cases "?D c < ?D (cs ! i)")
    case True
    have "foldl (closest_step (Some r) (Some g) (Some b)) (c0, Infinity) (cs @ [c])
            = (hex c, Dist (sqrt (real_of_int (?D c))))"
      using True by (simp add: f closest_step_next [OF pc])
    moreover have "\<forall>j < length (cs @ [c]). ?D c \<le> ?D ((cs @ [c]) ! j)"
      using True mn by (auto simp: nth_append less_Suc_eq intro: order.strict_implies_order order.strict_trans2)
    moreover have "\<forall>j < length cs. ?D c < ?D ((cs @ [c]) ! j)"
      using True mn by (auto simp: nth_append intro: order.strict_trans2)
    ultimately show ?thesis
      by (intro exI [of _ "length cs"]) simp
  next
    case False
    have "foldl (closest_step (Some r) (Some g) (Some b)) (c0, Infinity) (cs @ [c])
            = (hex (cs ! i), Dist (sqrt (real_of_int (?D (cs ! i)))))"
      using False by (simp add: f closest_step_next [OF pc])
    moreover have "\<forall>j < length (cs @ [c]). ?D (cs ! i) \<le> ?D ((cs @ [c]) ! j)"
      using False mn by (auto simp: nth_append less_Suc_eq)
    moreover have "\<forall>j < i. ?D (cs ! i) < ?D ((cs @ [c]) ! j)"
      using fst i by (auto simp: nth_append)
    ultimately show ?thesis
      using i by (intro exI [of _ i]) (simp add: nth_append)
  qed
qed

lemma parsed_palette: "\<forall>c \<in> set legoColors. parsed c"
  by (simp add: parsed_def legoColors_def hexToRgb_def parseInt16_def is_blank_def substring_def hexDigit_def Let_def)

lemma triple_palette: "j < length legoColors \<Longrightarrow> triple (legoColors ! j) = paletteRGB ! j"
  using nth_map [of j legoColors triple] by (simp add: hexToRgb_palette)

lemma legoColors_nonempty: "legoColors \<noteq> []"
  by (simp add: legoColors_def)

text \<open>
  Claim C1. For every input whose channels are integers from 0 to 255,
  \<open>findClosestLegoColor\<close> returns the colour code of a palette entry whose squared
  distance to the input is minimal over the whole palette, and every entry before it
  in palette order is strictly farther away: among equidistant entries the first wins.
  The distance is measured to the channel values of the palette as \<open>paletteRGB\<close> spells
  them out, entry \<open>i\<close> of \<open>paletteRGB\<close> belonging to entry \<open>i\<close> of \<open>legoColors\<close>.
\<close>

theorem findClosestLegoColor_nearest:
  assumes "0 \<le> r \<and> r \<le> 255" and "0 \<le> g \<and> g \<le> 255" and "0 \<le> b \<and> b \<le> 255"
  shows "\<exists>i < length legoColors.
           findClosestLegoColor (Some r) (Some g) (Some b) = hex (legoColors ! i)
         \<and> (\<forall>j < length legoColors. sqdist r g b (paletteRGB ! i) \<le> sqdist r g b (paletteRGB ! j))
         \<and> (\<forall>j < i. sqdist r g b (paletteRGB ! i) < sqdist r g b (paletteRGB ! j))"
proof -
  from foldl_closest [OF legoColors_nonempty parsed_palette, of r g b "hex (legoColors ! 0)"]
  obtain i where i: "i < length legoColors"
    and f: "foldl (closest_step (Some r) (Some g) (Some b)) (hex (legoColors ! 0), Infinity) legoColors
             = (hex (legoColors ! i), Dist (sqrt (real_of_int (sqdist r g b (triple (legoColors ! i))))))"
    and mn: "\<forall>j < length legoColors. sqdist r g b (triple (legoColors ! i)) \<le> sqdist r g b (triple (legoColors ! j))"
    and fs: "\<forall>j < i. sqdist r g b (triple (legoColors ! i)) < sqdist r g b (triple (legoColors ! j))"
    by blast
  have "findClosestLegoColor (Some r) (Some g) (Some b) = hex (legoColors ! i)"
    by (simp add: findClosestLegoColor_def f)
  moreover have "\<forall>j < length legoColors. sqdist r g b (paletteRGB ! i) \<le> sqdist r g b (paletteRGB ! j)"
    using mn i by (simp add: triple_palette)
  moreover have "\<forall>j < i. sqdist r g b (paletteRGB ! i) < sqdist r g b (paletteRGB ! j)"
    using fs i by (simp add: triple_palette)
  ultimately show ?thesis using i by blast
qed

text \<open>
  At the input (127, 127, 127) the theorem determines the answer: Dark Tan,
  \<^verbatim>\<open>#958A73\<close>, at squared distance 749, is the only palette entry within that
  distance.
\<close>

theorem findClosestLegoColor_nearest_witness:
  "(0::int) \<le> 127 \<and> (127::int) \<le> 255
   \<and> sqdist 127 127 127 (paletteRGB ! 8) = 749
   \<and> findClosestLegoColor (Some 127) (Some 127) (Some 127) = ''#958A73''"
proof -
  from findClosestLegoColor_nearest [of 127 127 127]
  obtain i where i: "i < length legoColors"
    and r: "findClosestLegoColor (Some 127) (Some 127) (Some 127) = hex (legoColors ! i)"
    and mn: "\<forall>j < length legoColors.
               sqdist 127 127 127 (paletteRGB ! i) \<le> sqdist 127 127 127 (paletteRGB ! j)"
    by auto
  have len: "length legoColors = 20" by (simp add: legoColors_def)
  have "sqdist 127 127 127 (paletteRGB ! i) \<le> sqdist 127 127 127 (paletteRGB ! 8)"
    using mn len by simp
  moreover have "\<forall>k \<in> set [0..<20].
      sqdist 127 127 127 (paletteRGB ! k) \<le> sqdist 127 127 127 (paletteRGB ! 8) \<longrightarrow> k = 8"
    by code_simp
  ultimately have "i = 8"
    using i len by simp
  then have "findClosestLegoColor (Some 127) (Some 127) (Some 127) = ''#958A73''"
    using r by (simp add: legoColors_def)
  moreover have "sqdist 127 127 127 (paletteRGB ! 8) = 749"
    by code_simp
  ultimately show ?thesis by simp
qed

lemma closest_eval_gray: "findClosestLegoColor (Some 127) (Some 127) (Some 127) = ''#958A73''"
  by (simp add: findClosestLegoColor_def legoColors_def closest_step_def distance_def hexToRgb_def
      parseInt16_def is_blank_def substring_def hexDigit_def Math_sqrt_def js_add_def js_sub_def Math_pow2_def Let_def)

lemma closest_eval_nan: "findClosestLegoColor None (Some 127) (Some 127) = ''#C91A09''"
  by (simp add: findClosestLegoColor_def legoColors_def closest_step_def distance_def hexToRgb_def
      parseInt16_def is_blank_def substring_def hexDigit_def Math_sqrt_def js_add_def js_sub_def Math_pow2_def Let_def)

section \<open>Allocation, snapshots and the store\<close>


lemma alloc_all_Cons:
  "alloc_all (a # as) s =
     (fresh s # fst (alloc_all as (s\<lparr>heap := (heap s)(fresh s := a), fresh := Suc (fresh s)\<rparr>)),
      snd (alloc_all as (s\<lparr>heap := (heap s)(fresh s := a), fresh := Suc (fresh s)\<rparr>)))"
  by (simp add: alloc_def case_prod_beta)

lemma upt_shift: "[m ..< m + Suc n] = m # [Suc m ..< Suc m + n]"
proof -
  have "[m ..< m + Suc n] = m # [Suc m ..< m + Suc n]"
    by (rule upt_conv_Cons) simp
  then show ?thesis by (simp only: add_Suc add_Suc_right)
qed

lemma alloc_all_fst: "fst (alloc_all as s) = [fresh s ..< fresh s + length as]"
proof (induction as arbitrary: s)
  case Nil
  then show ?case by simp
next
  case (Cons a as)
  have "fst (alloc_all (a # as) s) = fresh s # [Suc (fresh s) ..< Suc (fresh s) + length as]"
    unfolding alloc_all_Cons by (simp add: Cons.IH)
  moreover have "length (a # as) = Suc (length as)" by simp
  ultimately show ?case
    by (simp only: upt_shift)
qed

lemma alloc_all_fresh: "fresh (snd (alloc_all as s)) = fresh s + length as"
proof (induction as arbitrary: s)
  case Nil
  then show ?case by simp
next
  case (Cons a as)
  show ?case
    unfolding alloc_all_Cons by (simp add: Cons.IH)
qed

lemma alloc_all_currentColor: "currentColor (snd (alloc_all as s)) = currentColor s"
  by (induction as arbitrary: s) (simp_all add: alloc_all_Cons del: alloc_all.simps(2))

lemma alloc_all_canvasSize: "canvasSize (snd (alloc_all as s)) = canvasSize s"
  by (induction as arbitrary: s) (simp_all add: alloc_all_Cons del: alloc_all.simps(2))

lemma alloc_all_legoGrid: "legoGrid (snd (alloc_all as s)) = legoGrid s"
  by (induction as arbitrary: s) (simp_all add: alloc_all_Cons del: alloc_all.simps(2))

lemma alloc_all_undoStack: "undoStack (snd (alloc_all as s)) = undoStack s"
  by (induction as arbitrary: s) (simp_all add: alloc_all_Cons del: alloc_all.simps(2))

lemma alloc_all_isEraserMode: "isEraserMode (snd (alloc_all as s)) = isEraserMode s"
  by (induction as arbitrary: s) (simp_all add: alloc_all_Cons del: alloc_all.simps(2))

lemma alloc_all_bricks: "bricks (snd (alloc_all as s)) = bricks s"
  by (induction as arbitrary: s) (simp_all add: alloc_all_Cons del: alloc_all.simps(2))

lemmas alloc_all_globals = alloc_all_bricks alloc_all_currentColor alloc_all_canvasSize alloc_all_legoGrid
  alloc_all_undoStack alloc_all_isEraserMode alloc_all_fresh

lemma alloc_all_heap_old: "p < fresh s \<Longrightarrow> heap (snd (alloc_all as s)) p = heap s p"
proof (induction as arbitrary: s)
  case Nil
  then show ?case by simp
next
  case (Cons a as)
  then show ?case
    unfolding alloc_all_Cons by simp
qed

lemma alloc_all_heap_new:
  "i < length as \<Longrightarrow> heap (snd (alloc_all as s)) (fresh s + i) = as ! i"
proof (induction as arbitrary: s i)
  case Nil
  then show ?case by simp
next
  case (Cons a as)
  show ?case
  proof (cases i)
    case 0
    then show ?thesis
      unfolding alloc_all_Cons by (simp add: alloc_all_heap_old)
  next
    case (Suc k)
    then have "k < length as" using Cons.prems by simp
    from Cons.IH [OF this, of "s\<lparr>heap := (heap s)(fresh s := a), fresh := Suc (fresh s)\<rparr>"]
    show ?thesis
      unfolding alloc_all_Cons using Suc by simp
  qed
qed

lemma map_heap_alloc_all:
  "map (heap (snd (alloc_all as s))) [fresh s ..< fresh s + length as] = as"
  by (rule nth_equalityI) (simp_all add: alloc_all_heap_new)

subsection \<open>saveState\<close>

lemma saveState_alt:
  "saveState s =
     (snd (alloc_all (map (\<lambda>row. spread (heap s row)) (legoGrid s)) s))
       \<lparr>undoStack := push_bounded (undoStack s) [fresh s ..< fresh s + length (legoGrid s)]\<rparr>"
  by (simp add: saveState_def case_prod_beta alloc_all_globals alloc_all_fst push_bounded_def Let_def)

lemma saveState_globals:
  "currentColor (saveState s) = currentColor s"
  "canvasSize (saveState s) = canvasSize s"
  "legoGrid (saveState s) = legoGrid s"
  "isEraserMode (saveState s) = isEraserMode s"
  "bricks (saveState s) = bricks s"
  "fresh (saveState s) = fresh s + length (legoGrid s)"
  "undoStack (saveState s) = push_bounded (undoStack s) [fresh s ..< fresh s + length (legoGrid s)]"
  by (simp_all add: saveState_alt alloc_all_globals)

lemma saveState_heap_old: "p < fresh s \<Longrightarrow> heap (saveState s) p = heap s p"
  by (simp add: saveState_alt alloc_all_heap_old)

lemma saveState_heap_new:
  "i < length (legoGrid s) \<Longrightarrow> heap (saveState s) (fresh s + i) = spread (heap s (legoGrid s ! i))"
  by (simp add: saveState_alt alloc_all_heap_new)

lemma push_bounded_alt:
  "push_bounded stack x = (if 20 \<le> length stack then tl stack @ [x] else stack @ [x])"
  by (cases stack) (simp_all add: push_bounded_def)

lemma set_tl_subset: "set (tl xs) \<subseteq> set xs"
  by (cases xs) auto

lemma set_push_bounded: "set (push_bounded stack x) \<subseteq> insert x (set stack)"
  using set_tl_subset [of stack] by (auto simp: push_bounded_alt)


lemma length_push_bounded_le: "length stack \<le> 20 \<Longrightarrow> length (push_bounded stack x) \<le> 20"
  by (simp add: push_bounded_alt)

lemma push_bounded_not_Nil: "push_bounded stack x \<noteq> []"
  by (simp add: push_bounded_alt)

lemma last_push_bounded: "last (push_bounded stack x) = x"
  by (simp add: push_bounded_alt)

lemma butlast_push_bounded:
  "butlast (push_bounded stack x) = (if 20 \<le> length stack then tl stack else stack)"
  by (simp add: push_bounded_alt)

lemma map_push_bounded: "map f (push_bounded stack x) = push_bounded (map f stack) (f x)"
  by (simp add: push_bounded_alt map_tl)

lemma distinct_concat_tl: "distinct (concat xs) \<Longrightarrow> distinct (concat (tl xs))"
  by (cases xs) simp_all

lemma set_concat_tl: "set (concat (tl xs)) \<subseteq> set (concat xs)"
  by (cases xs) auto

lemma distinct_concat_push_bounded:
  assumes "distinct (concat stack)" and "distinct x" and "set x \<inter> set (concat stack) = {}"
  shows "distinct (concat (push_bounded stack x))"
proof (cases "20 \<le> length stack")
  case True
  have "set x \<inter> set (concat (tl stack)) = {}"
    using assms(3) set_concat_tl [of stack] by blast
  then have "distinct (concat (tl stack) @ x)"
    using distinct_concat_tl [OF assms(1)] assms(2) by (simp add: Int_commute)
  then show ?thesis using True by (simp add: push_bounded_alt)
next
  case False
  have "distinct (concat stack @ x)"
    using assms by (simp add: Int_commute)
  then show ?thesis using False by (simp add: push_bounded_alt)
qed

lemma set_concat_push_bounded:
  "set (concat (push_bounded stack x)) \<subseteq> set x \<union> set (concat stack)"
  using set_concat_tl [of stack] by (auto simp: push_bounded_alt)

lemma snapshot_cong:
  "(\<And>p. p \<in> set rows \<Longrightarrow> heap s' p = heap s p) \<Longrightarrow> snapshot s' rows = snapshot s rows"
  by (simp add: snapshot_def)

lemma wf_saveState:
  assumes "wf_state s"
  shows "wf_state (saveState s)"
proof -
  let ?new = "[fresh s ..< fresh s + length (legoGrid s)]"
  from assms have d: "distinct (legoGrid s)" "distinct (concat (undoStack s))"
      "set (legoGrid s) \<inter> set (concat (undoStack s)) = {}"
    and bl: "\<And>p. p \<in> set (legoGrid s) \<Longrightarrow> p < fresh s"
    and bs: "\<And>p. p \<in> set (concat (undoStack s)) \<Longrightarrow> p < fresh s"
    unfolding wf_state_def by simp_all
  have sub: "set (concat (push_bounded (undoStack s) ?new)) \<subseteq> set ?new \<union> set (concat (undoStack s))"
    by (rule set_concat_push_bounded)
  have n1: "set ?new \<inter> set (concat (undoStack s)) = {}"
  proof (rule ccontr)
    assume "set ?new \<inter> set (concat (undoStack s)) \<noteq> {}"
    then obtain p where "p \<in> set ?new" "p \<in> set (concat (undoStack s))" by blast
    then show False using bs [of p] by simp
  qed
  have n2: "set (legoGrid s) \<inter> set ?new = {}"
  proof (rule ccontr)
    assume "set (legoGrid s) \<inter> set ?new \<noteq> {}"
    then obtain p where "p \<in> set ?new" "p \<in> set (legoGrid s)" by blast
    then show False using bl [of p] by simp
  qed
  have d1: "distinct (concat (push_bounded (undoStack s) ?new))"
    by (rule distinct_concat_push_bounded [OF d(2) _ n1]) simp
  have d2: "set (legoGrid s) \<inter> set (concat (push_bounded (undoStack s) ?new)) = {}"
    using sub n2 d(3) by blast
  have b1: "p < fresh s + length (legoGrid s)"
    if "p \<in> set (legoGrid s) \<or> p \<in> set (concat (push_bounded (undoStack s) ?new))" for p
  proof -
    from that sub have "p \<in> set (legoGrid s) \<or> p \<in> set ?new \<or> p \<in> set (concat (undoStack s))"
      by blast
    then show ?thesis
    proof (elim disjE)
      assume "p \<in> set (legoGrid s)" then show ?thesis using bl [of p] by simp
    next
      assume "p \<in> set ?new" then show ?thesis by simp
    next
      assume "p \<in> set (concat (undoStack s))" then show ?thesis using bs [of p] by simp
    qed
  qed
  have "distinct (legoGrid s @ concat (push_bounded (undoStack s) ?new))"
    using d(1) d1 d2 by simp
  moreover have "\<forall>p \<in> set (legoGrid s @ concat (push_bounded (undoStack s) ?new)).
                   p < fresh s + length (legoGrid s)"
    using b1 by (simp only: set_append Un_iff) blast
  ultimately show ?thesis
    unfolding wf_state_def saveState_globals by blast
qed

lemma snapshot_saveState_old:
  "\<forall>p \<in> set rows. p < fresh s \<Longrightarrow> snapshot (saveState s) rows = snapshot s rows"
  by (intro snapshot_cong) (simp add: saveState_heap_old)

lemma snapshot_saveState_new:
  "snapshot (saveState s) [fresh s ..< fresh s + length (legoGrid s)] = grid s"
  unfolding grid_def snapshot_def
  by (rule nth_equalityI) (simp_all add: saveState_heap_new spread_def)

lemma grid_saveState: "wf_state s \<Longrightarrow> grid (saveState s) = grid s"
  unfolding grid_def saveState_globals
  by (intro snapshot_saveState_old) (simp add: wf_state_def)

lemma history_saveState:
  assumes "wf_state s"
  shows "history (saveState s) = push_bounded (history s) (grid s)"
proof -
  have eq: "map (snapshot (saveState s)) (undoStack s) = map (snapshot s) (undoStack s)"
  proof (rule map_cong [OF refl])
    fix rows assume "rows \<in> set (undoStack s)"
    then have "\<forall>p \<in> set rows. p < fresh s" using assms by (auto simp: wf_state_def)
    then show "snapshot (saveState s) rows = snapshot s rows"
      by (rule snapshot_saveState_old)
  qed
  show ?thesis
    unfolding history_def saveState_globals map_push_bounded snapshot_saveState_new eq ..
qed

section \<open>Writing a cell\<close>

lemma map_of_filter_neq: "j \<noteq> i \<Longrightarrow> map_of (filter (\<lambda>p. fst p \<noteq> i) xs) j = map_of xs j"
  by (induction xs) auto

lemma array_get_set: "array_get (array_set a i v) j = (if i = j then v else array_get a j)"
proof (cases "i < 0")
  case True
  then show ?thesis
    by (auto simp: array_get_def array_set_def map_of_filter_neq)
next
  case False
  show ?thesis
  proof (cases "nat i < length (elems a)")
    case True
    with False show ?thesis
      by (auto simp: array_get_def array_set_def nth_list_update)
  next
    case False
    with \<open>\<not> i < 0\<close> show ?thesis
      by (auto simp: array_get_def array_set_def nth_append)
  qed
qed

lemma elems_array_set_inside:
  "0 \<le> i \<Longrightarrow> nat i < length (elems a) \<Longrightarrow> elems (array_set a i v) = (elems a)[nat i := v]"
  by (simp add: array_set_def)

lemma elems_array_set_negative: "i < 0 \<Longrightarrow> elems (array_set a i v) = elems a"
  by (simp add: array_set_def)

lemma elems_array_set_beyond:
  "0 \<le> i \<Longrightarrow> length (elems a) \<le> nat i \<Longrightarrow>
     elems (array_set a i v) = elems a @ replicate (nat i - length (elems a)) Undefined @ [v]"
  by (simp add: array_set_def)

lemma set_elems_array_set:
  "set (elems (array_set a i v)) \<subseteq> insert v (insert Undefined (set (elems a)))"
proof -
  have "set ((elems a)[nat i := v]) \<subseteq> insert v (set (elems a))"
    by (rule set_update_subset_insert)
  then show ?thesis
    by (auto simp: array_set_def)
qed

lemma touches_live_refl: "touches_live s s"
  by (simp add: touches_live_def)

lemma touches_live_trans: "touches_live s s' \<Longrightarrow> touches_live s' s'' \<Longrightarrow> touches_live s s''"
  by (simp add: touches_live_def)

lemma touches_live_grid_assign: "touches_live s (snd (grid_assign row col v s))"
  by (simp add: grid_assign_def touches_live_def Let_def)

lemma touches_live_stored:
  assumes "touches_live s s'" and "wf_state s" and "rows \<in> set (undoStack s)"
  shows "map (heap s') rows = map (heap s) rows"
proof (rule map_cong [OF refl])
  fix p assume p: "p \<in> set rows"
  with assms(3) have "p \<in> set (concat (undoStack s))" by auto
  with assms(2) have "p \<notin> set (legoGrid s)" by (auto simp: wf_state_def)
  with assms(1) show "heap s' p = heap s p" by (simp add: touches_live_def)
qed

lemma touches_live_snapshot:
  assumes "touches_live s s'" and "wf_state s" and "rows \<in> set (undoStack s)"
  shows "snapshot s' rows = snapshot s rows"
proof -
  have "map (\<lambda>p. elems (heap s' p)) rows = map elems (map (heap s') rows)" by simp
  also have "\<dots> = map elems (map (heap s) rows)"
    by (simp only: touches_live_stored [OF assms])
  finally show ?thesis by (simp add: snapshot_def)
qed

lemma touches_live_history:
  assumes "touches_live s s'" and "wf_state s"
  shows "history s' = history s"
proof -
  have "map (snapshot s') (undoStack s) = map (snapshot s) (undoStack s)"
    by (rule map_cong [OF refl]) (rule touches_live_snapshot [OF assms])
  moreover have "undoStack s' = undoStack s" using assms(1) by (simp add: touches_live_def)
  ultimately show ?thesis by (simp add: history_def)
qed

lemma touches_live_wf: "touches_live s s' \<Longrightarrow> wf_state s \<Longrightarrow> wf_state s'"
  by (simp add: touches_live_def wf_state_def)

lemma grid_assign_outcome:
  "fst (grid_assign row col v s) = (if 0 \<le> row \<and> nat row < length (legoGrid s) then Done else TypeError)"
  by (simp add: grid_assign_def Let_def)

lemma grid_assign_outside:
  "\<not> (0 \<le> row \<and> nat row < length (legoGrid s)) \<Longrightarrow> grid_assign row col v s = (TypeError, s)"
  by (auto simp: grid_assign_def)

lemma heap_grid_assign:
  "0 \<le> row \<Longrightarrow> nat row < length (legoGrid s) \<Longrightarrow>
     heap (snd (grid_assign row col v s)) =
       (heap s)(legoGrid s ! nat row := array_set (heap s (legoGrid s ! nat row)) col v)"
  by (simp add: grid_assign_def Let_def)

lemma grid_grid_assign:
  assumes "distinct (legoGrid s)" and "0 \<le> row" and "nat row < length (legoGrid s)"
  shows "grid (snd (grid_assign row col v s)) =
           (grid s)[nat row := elems (array_set (heap s (legoGrid s ! nat row)) col v)]"
proof (rule nth_equalityI)
  show "length (grid (snd (grid_assign row col v s)))
          = length ((grid s)[nat row := elems (array_set (heap s (legoGrid s ! nat row)) col v)])"
    using assms by (simp add: grid_def snapshot_def grid_assign_def Let_def)
next
  fix i assume "i < length (grid (snd (grid_assign row col v s)))"
  then have i: "i < length (legoGrid s)"
    using assms by (simp add: grid_def snapshot_def grid_assign_def Let_def)
  have "legoGrid s ! i = legoGrid s ! nat row \<longleftrightarrow> i = nat row"
    using assms i by (simp add: nth_eq_iff_index_eq)
  then show "grid (snd (grid_assign row col v s)) ! i
          = (grid s)[nat row := elems (array_set (heap s (legoGrid s ! nat row)) col v)] ! i"
    using assms i by (auto simp: grid_def snapshot_def grid_assign_def Let_def nth_list_update)
qed

lemma cell_at_grid_assign:
  assumes "distinct (legoGrid s)" and "0 \<le> row" and "nat row < length (legoGrid s)"
    and "i < length (legoGrid s)"
  shows "cell_at (snd (grid_assign row col v s)) i j
           = (if i = nat row \<and> int j = col then v else cell_at s i j)"
proof -
  have "legoGrid s ! i = legoGrid s ! nat row \<longleftrightarrow> i = nat row"
    using assms by (simp add: nth_eq_iff_index_eq)
  then show ?thesis
    using assms by (auto simp: cell_at_def grid_assign_def Let_def array_get_set)
qed

section \<open>saveState followed by a write: placeBrick\<close>

lemma placeBrick_alt:
  "placeBrick row col s =
     grid_assign row col (if isEraserMode s then Null else Color (currentColor s)) (saveState s)"
  by (simp add: placeBrick_def Let_def saveState_globals)

lemma touches_live_placeBrick: "touches_live (saveState s) (snd (placeBrick row col s))"
  unfolding placeBrick_alt by (rule touches_live_grid_assign)

lemma wf_placeBrick: "wf_state s \<Longrightarrow> wf_state (snd (placeBrick row col s))"
  using touches_live_wf [OF touches_live_placeBrick wf_saveState] .

lemma history_placeBrick:
  "wf_state s \<Longrightarrow> history (snd (placeBrick row col s)) = push_bounded (history s) (grid s)"
  using touches_live_history [OF touches_live_placeBrick wf_saveState]
  by (simp add: history_saveState)

lemma undoStack_placeBrick:
  "undoStack (snd (placeBrick row col s))
     = push_bounded (undoStack s) [fresh s ..< fresh s + length (legoGrid s)]"
  using touches_live_placeBrick [of s row col]
  by (simp add: touches_live_def saveState_globals)

section \<open>undo\<close>

lemma undo_empty: "undoStack s = [] \<Longrightarrow> undo s = (NothingToUndo, s)"
  by (simp add: undo_def)

lemma undo_nonempty:
  "undoStack s \<noteq> [] \<Longrightarrow>
     undo s = (redrawCanvas (s\<lparr>legoGrid := last (undoStack s), undoStack := butlast (undoStack s)\<rparr>),
               s\<lparr>legoGrid := last (undoStack s), undoStack := butlast (undoStack s)\<rparr>)"
  by (simp add: undo_def Let_def)

lemma grid_undo: "undoStack s \<noteq> [] \<Longrightarrow> grid (snd (undo s)) = last (history s)"
  by (simp add: undo_nonempty grid_def history_def snapshot_def last_map)

lemma snapshot_heap_eq: "heap s' = heap s \<Longrightarrow> snapshot s' = snapshot s"
  by (rule ext) (simp add: snapshot_def)

lemma history_undo: "history (snd (undo s)) = butlast (history s)"
proof (cases "undoStack s = []")
  case True
  then show ?thesis by (simp add: undo_empty history_def)
next
  case False
  have "snapshot (s\<lparr>legoGrid := last (undoStack s), undoStack := butlast (undoStack s)\<rparr>) = snapshot s"
    by (rule snapshot_heap_eq) simp
  then show ?thesis
    using False by (simp add: undo_nonempty history_def map_butlast)
qed

lemma length_undoStack_undo: "length (undoStack (snd (undo s))) = length (undoStack s) - 1"
  by (cases "undoStack s = []") (simp_all add: undo_nonempty undo_empty)

lemma wf_undo:
  assumes "wf_state s"
  shows "wf_state (snd (undo s))"
proof (cases "undoStack s = []")
  case True
  then show ?thesis using assms by (simp add: undo_empty)
next
  case False
  then have split: "undoStack s = butlast (undoStack s) @ [last (undoStack s)]" by simp
  have c: "concat (undoStack s) = concat (butlast (undoStack s)) @ last (undoStack s)"
    by (subst split) simp
  from assms have "distinct (concat (undoStack s))"
    and "\<forall>p \<in> set (concat (undoStack s)). p < fresh s"
    by (simp_all add: wf_state_def)
  then have "distinct (last (undoStack s) @ concat (butlast (undoStack s)))"
    and "\<forall>p \<in> set (last (undoStack s) @ concat (butlast (undoStack s))). p < fresh s"
    unfolding c by auto
  then show ?thesis
    using False by (simp add: undo_nonempty wf_state_def)
qed

section \<open>initializeCanvas\<close>

lemma initializeCanvas_alt:
  "initializeCanvas s =
     (snd (alloc_all (replicate (canvasSize s) \<lparr>elems = replicate (canvasSize s) Null, props = []\<rparr>) s))
       \<lparr>legoGrid := [fresh s ..< fresh s + canvasSize s],
        bricks := List.product [0..<canvasSize s] [0..<canvasSize s]\<rparr>"
  by (simp add: initializeCanvas_def case_prod_beta alloc_all_fst)

lemma initializeCanvas_globals:
  "currentColor (initializeCanvas s) = currentColor s"
  "canvasSize (initializeCanvas s) = canvasSize s"
  "undoStack (initializeCanvas s) = undoStack s"
  "isEraserMode (initializeCanvas s) = isEraserMode s"
  "fresh (initializeCanvas s) = fresh s + canvasSize s"
  "legoGrid (initializeCanvas s) = [fresh s ..< fresh s + canvasSize s]"
  "bricks (initializeCanvas s) = List.product [0..<canvasSize s] [0..<canvasSize s]"
  by (simp_all add: initializeCanvas_alt alloc_all_globals)

lemma heap_initializeCanvas_old: "p < fresh s \<Longrightarrow> heap (initializeCanvas s) p = heap s p"
  by (simp add: initializeCanvas_alt alloc_all_heap_old)

lemma grid_initializeCanvas:
  "grid (initializeCanvas s) = replicate (canvasSize s) (replicate (canvasSize s) Null)"
  unfolding grid_def snapshot_def
  by (rule nth_equalityI) (simp_all add: initializeCanvas_globals initializeCanvas_alt alloc_all_heap_new)

lemma history_initializeCanvas:
  assumes "wf_state s"
  shows "history (initializeCanvas s) = history s"
proof -
  have "map (snapshot (initializeCanvas s)) (undoStack s) = map (snapshot s) (undoStack s)"
  proof (rule map_cong [OF refl])
    fix rows assume "rows \<in> set (undoStack s)"
    then have "\<And>p. p \<in> set rows \<Longrightarrow> p < fresh s" using assms by (auto simp: wf_state_def)
    then show "snapshot (initializeCanvas s) rows = snapshot s rows"
      by (intro snapshot_cong) (simp add: heap_initializeCanvas_old)
  qed
  then show ?thesis
    by (simp add: history_def initializeCanvas_globals)
qed

lemma wf_initializeCanvas:
  assumes "wf_state s"
  shows "wf_state (initializeCanvas s)"
proof -
  let ?new = "[fresh s ..< fresh s + canvasSize s]"
  from assms have d: "distinct (concat (undoStack s))"
    and bs: "\<And>p. p \<in> set (concat (undoStack s)) \<Longrightarrow> p < fresh s"
    unfolding wf_state_def by simp_all
  have "set ?new \<inter> set (concat (undoStack s)) = {}"
  proof (rule ccontr)
    assume "set ?new \<inter> set (concat (undoStack s)) \<noteq> {}"
    then obtain p where "p \<in> set ?new" "p \<in> set (concat (undoStack s))" by blast
    then show False using bs [of p] by simp
  qed
  then have "distinct (?new @ concat (undoStack s))" using d by simp
  moreover have "\<forall>p \<in> set (?new @ concat (undoStack s)). p < fresh s + canvasSize s"
  proof
    fix p assume "p \<in> set (?new @ concat (undoStack s))"
    then have "p \<in> set ?new \<or> p \<in> set (concat (undoStack s))"
      by (simp only: set_append Un_iff)
    then show "p < fresh s + canvasSize s"
    proof
      assume "p \<in> set ?new" then show ?thesis by simp
    next
      assume "p \<in> set (concat (undoStack s))"
      then have "p < fresh s" by (rule bs)
      then show ?thesis by simp
    qed
  qed
  ultimately show ?thesis
    unfolding wf_state_def initializeCanvas_globals by blast
qed

section \<open>The conversion loop\<close>

lemma fill_cells_Cons:
  "fill_cells pixels n ((row, col) # rest) s =
     (let c = Color (findClosestLegoColor (pixel_read pixels ((row * n + col) * 4))
                                          (pixel_read pixels ((row * n + col) * 4 + 1))
                                          (pixel_read pixels ((row * n + col) * 4 + 2)))
      in if fst (grid_assign (int row) (int col) c s) = Done
         then fill_cells pixels n rest (snd (grid_assign (int row) (int col) c s))
         else grid_assign (int row) (int col) c s)"
  by (simp add: Let_def case_prod_beta)

lemma touches_live_fill_cells: "touches_live s (snd (fill_cells pixels n cells s))"
proof (induction cells arbitrary: s)
  case Nil
  then show ?case by (simp add: touches_live_refl)
next
  case (Cons rc cells)
  obtain row col where rc: "rc = (row, col)" by (cases rc)
  let ?c = "Color (findClosestLegoColor (pixel_read pixels ((row * n + col) * 4))
                                        (pixel_read pixels ((row * n + col) * 4 + 1))
                                        (pixel_read pixels ((row * n + col) * 4 + 2)))"
  let ?s1 = "snd (grid_assign (int row) (int col) ?c s)"
  have a: "touches_live s ?s1" by (rule touches_live_grid_assign)
  show ?case
  proof (cases "fst (grid_assign (int row) (int col) ?c s) = Done")
    case True
    have "touches_live ?s1 (snd (fill_cells pixels n cells ?s1))" by (rule Cons.IH)
    with a have "touches_live s (snd (fill_cells pixels n cells ?s1))" by (rule touches_live_trans)
    then show ?thesis
      unfolding rc fill_cells_Cons using True by (simp add: Let_def)
  next
    case False
    then show ?thesis
      unfolding rc fill_cells_Cons using a by (simp add: Let_def)
  qed
qed

lemma processImageToLego_alt:
  "snd (processImageToLego draw img s) =
     (case draw img (canvasSize s) of
        None \<Rightarrow> saveState s
      | Some pixels \<Rightarrow>
          snd (fill_cells pixels (canvasSize s)
                 (List.product [0..<canvasSize s] [0..<canvasSize s]) (saveState s)))"
  by (simp add: processImageToLego_def Let_def saveState_globals case_prod_beta split: option.split)

lemma outcome_processImageToLego:
  assumes "draw img (canvasSize s) = Some pixels"
    and "r = fill_cells pixels (canvasSize s)
               (List.product [0..<canvasSize s] [0..<canvasSize s]) (saveState s)"
  shows "fst (processImageToLego draw img s) =
           (if fst r \<noteq> Done then fst r
            else if legoGrid (snd r) = [] then TypeError
            else redrawCanvas (snd r))"
  using assms by (simp add: processImageToLego_def Let_def saveState_globals case_prod_beta)

lemma touches_live_processImageToLego:
  "touches_live (saveState s) (snd (processImageToLego draw img s))"
  unfolding processImageToLego_alt
  by (cases "draw img (canvasSize s)") (simp_all add: touches_live_refl touches_live_fill_cells)

lemma wf_processImageToLego: "wf_state s \<Longrightarrow> wf_state (snd (processImageToLego draw img s))"
  using touches_live_wf [OF touches_live_processImageToLego wf_saveState] .

lemma history_processImageToLego:
  "wf_state s \<Longrightarrow> history (snd (processImageToLego draw img s)) = push_bounded (history s) (grid s)"
  using touches_live_history [OF touches_live_processImageToLego wf_saveState]
  by (simp add: history_saveState)

lemma undoStack_processImageToLego:
  "undoStack (snd (processImageToLego draw img s))
     = push_bounded (undoStack s) [fresh s ..< fresh s + length (legoGrid s)]"
  using touches_live_processImageToLego [of s draw img]
  by (simp add: touches_live_def saveState_globals)

section \<open>Every handler keeps the store well-formed and the history bounded\<close>

lemma wf_clearCanvas: "wf_state s \<Longrightarrow> wf_state (clearCanvas confirmed s)"
  by (simp add: clearCanvas_def wf_initializeCanvas wf_saveState)

lemma wf_canvasSize_update: "wf_state (s\<lparr>canvasSize := n\<rparr>) = wf_state s"
  by (simp add: wf_state_def)

lemma wf_canvasSizeChange: "wf_state s \<Longrightarrow> wf_state (canvasSizeChange newSize confirmed s)"
  by (simp add: canvasSizeChange_def Let_def wf_initializeCanvas wf_canvasSize_update)

lemma wf_swatchClick: "wf_state s \<Longrightarrow> wf_state (swatchClick c s)"
  by (simp add: swatchClick_def selectColor_def wf_state_def)

lemma wf_toggleEraser: "wf_state s \<Longrightarrow> wf_state (toggleEraser s)"
  by (simp add: toggleEraser_def wf_state_def)

lemma wf_fire: "wf_state s \<Longrightarrow> wf_state (fire draw ev s)"
  by (cases ev)
     (simp_all add: wf_placeBrick wf_swatchClick wf_toggleEraser wf_undo wf_clearCanvas
        wf_canvasSizeChange wf_processImageToLego)


lemma wf_initial: "wf_state initial"
  by (simp add: initial_def wf_state_def)

lemma wf_selectColor: "wf_state (selectColor c s) = wf_state s"
  by (simp add: selectColor_def wf_state_def)

lemma wf_startup: "wf_state startup"
  unfolding startup_def wf_selectColor by (rule wf_initializeCanvas [OF wf_initial])

lemma undoStack_startup: "undoStack startup = []"
  by (simp add: startup_def selectColor_def initializeCanvas_globals initial_def)

lemma bounded_fire:
  assumes "length (undoStack s) \<le> 20"
  shows "length (undoStack (fire draw ev s)) \<le> 20"
proof (cases ev)
  case (ClickBrick row col)
  then show ?thesis using assms by (simp add: undoStack_placeBrick length_push_bounded_le)
next
  case (ClickSwatch i)
  then show ?thesis using assms by (simp add: swatchClick_def selectColor_def)
next
  case ClickEraser
  then show ?thesis using assms by (simp add: toggleEraser_def)
next
  case ClickUndo
  then show ?thesis using assms by (simp add: length_undoStack_undo)
next
  case (ClickClear confirmed)
  then show ?thesis using assms
    by (simp add: clearCanvas_def initializeCanvas_globals saveState_globals length_push_bounded_le)
next
  case (ChangeSize newSize confirmed)
  then show ?thesis using assms
    by (simp add: canvasSizeChange_def Let_def initializeCanvas_globals)
next
  case (ClickGenerate img)
  then show ?thesis using assms by (simp add: undoStack_processImageToLego length_push_bounded_le)
qed

lemma bounded_run: "length (undoStack s) \<le> 20 \<Longrightarrow> length (undoStack (run draw evs s)) \<le> 20"
  unfolding run_def by (induction evs arbitrary: s) (simp_all add: bounded_fire)

section \<open>The bounded history\<close>

lemma length_history: "length (history s) = length (undoStack s)"
  by (simp add: history_def)

lemma grid_pick_tool: "grid (pick_tool t s) = grid s"
  by (cases t) (simp_all add: pick_tool_def toggleEraser_def swatchClick_def selectColor_def grid_def snapshot_def)

lemma history_pick_tool: "history (pick_tool t s) = history s"
proof -
  have "heap (pick_tool t s) = heap s"
    by (cases t) (simp_all add: pick_tool_def toggleEraser_def swatchClick_def selectColor_def)
  then have "snapshot (pick_tool t s) = snapshot s"
    by (rule snapshot_heap_eq)
  moreover have "undoStack (pick_tool t s) = undoStack s"
    by (cases t) (simp_all add: pick_tool_def toggleEraser_def swatchClick_def selectColor_def)
  ultimately show ?thesis
    by (simp add: history_def)
qed

lemma wf_pick_tool: "wf_state (pick_tool t s) = wf_state s"
  by (cases t) (simp_all add: pick_tool_def toggleEraser_def swatchClick_def selectColor_def wf_state_def)

lemma wf_setCell: "wf_state s \<Longrightarrow> wf_state (snd (setCell row col t s))"
  by (simp add: setCell_def wf_placeBrick wf_pick_tool)

lemma history_setCell:
  "wf_state s \<Longrightarrow> history (snd (setCell row col t s)) = push_bounded (history s) (grid s)"
  by (simp add: setCell_def history_placeBrick wf_pick_tool grid_pick_tool history_pick_tool)

lemma setCells_snoc:
  "setCells (ms @ [(row, col, t)]) s = snd (setCell row col t (setCells ms s))"
  by (simp add: setCells_def)

lemma wf_setCells: "wf_state s \<Longrightarrow> wf_state (setCells ms s)"
proof (induction ms rule: rev_induct)
  case Nil
  then show ?case by (simp add: setCells_def)
next
  case (snoc m ms)
  obtain row col t where m: "m = (row, col, t)" by (cases m)
  show ?case unfolding m setCells_snoc using snoc by (simp add: wf_setCell)
qed

lemma push_bounded_drop:
  "push_bounded (drop (length G - 20) G) g = drop (length (G @ [g]) - 20) (G @ [g])"
proof (cases "20 \<le> length G")
  case True
  have "tl (drop (length G - 20) G) = drop (Suc (length G - 20)) G"
    by (simp add: drop_Suc tl_drop)
  moreover have "Suc (length G - 20) = Suc (length G) - 20"
    using True by arith
  ultimately have "tl (drop (length G - 20) G) = drop (Suc (length G) - 20) G"
    by (simp only:)
  then show ?thesis
    using True by (simp add: push_bounded_alt)
next
  case False
  then show ?thesis by (simp add: push_bounded_alt)
qed

text \<open>
  After the mutations \<open>ms\<close> on a document with an empty history, the history holds the
  last twenty of the grids that the document went through before each mutation.
\<close>

lemma history_setCells:
  assumes "wf_state s" and "undoStack s = []"
  shows "history (setCells ms s)
           = drop (length ms - 20) (map (\<lambda>k. grid (setCells (take k ms) s)) [0..<length ms])"
proof (induction ms rule: rev_induct)
  case Nil
  then show ?case using assms by (simp add: setCells_def history_def)
next
  case (snoc m ms)
  obtain row col t where m: "m = (row, col, t)" by (cases m)
  let ?G = "map (\<lambda>k. grid (setCells (take k ms) s)) [0..<length ms]"
  have G: "map (\<lambda>k. grid (setCells (take k (ms @ [m])) s)) [0..<length (ms @ [m])]
             = ?G @ [grid (setCells ms s)]"
    by simp
  have "history (setCells (ms @ [m]) s) = push_bounded (history (setCells ms s)) (grid (setCells ms s))"
    unfolding m setCells_snoc by (rule history_setCell) (rule wf_setCells [OF assms(1)])
  also have "\<dots> = push_bounded (drop (length ?G - 20) ?G) (grid (setCells ms s))"
    using snoc by simp
  also have "\<dots> = drop (length (?G @ [grid (setCells ms s)]) - 20) (?G @ [grid (setCells ms s)])"
    by (rule push_bounded_drop)
  finally show ?case
    unfolding G by simp
qed

lemma undos_Suc: "undos (Suc k) s = undos k (snd (undo s))"
  by (simp only: undos_def funpow_Suc_right o_apply)

lemma grid_undos:
  "0 < k \<Longrightarrow> k \<le> length (history s) \<Longrightarrow> grid (undos k s) = history s ! (length (history s) - k)"
proof (induction k arbitrary: s)
  case 0
  then show ?case by simp
next
  case (Suc k)
  from Suc.prems have "history s \<noteq> []" by auto
  then have ne: "undoStack s \<noteq> []" "history s \<noteq> []"
    by (simp_all add: history_def)
  show ?case
  proof (cases "k = 0")
    case True
    then show ?thesis
      using ne by (simp add: undos_def grid_undo last_conv_nth)
  next
    case False
    then have "grid (undos k (snd (undo s)))
                 = history (snd (undo s)) ! (length (history (snd (undo s))) - k)"
      using Suc.prems by (intro Suc.IH) (simp_all add: history_undo)
    also have "\<dots> = butlast (history s) ! (length (history s) - Suc k)"
      by (simp add: history_undo)
    also have "\<dots> = history s ! (length (history s) - Suc k)"
      using Suc.prems False by (intro nth_butlast) simp
    finally show ?thesis by (simp add: undos_Suc)
  qed
qed

lemma history_saveState_full:
  assumes "wf_state s" and "length (undoStack s) = 20"
  shows "history (saveState s) = tl (history s) @ [grid s]"
  using assms by (simp add: history_saveState push_bounded_alt length_history)

lemma twenty_five_mutations:
  assumes "wf_state s" and "undoStack s = []" and "length ms = 25"
  shows "length (undoStack (setCells ms s)) = 20"
    and "grid (undos 20 (setCells ms s)) = grid (setCells (take 5 ms) s)"
proof -
  let ?G = "map (\<lambda>k. grid (setCells (take k ms) s)) [0..<length ms]"
  have h: "history (setCells ms s) = drop 5 ?G"
    using history_setCells [OF assms(1,2), of ms] assms(3) by simp
  then have len: "length (history (setCells ms s)) = 20"
    using assms(3) by simp
  then show "length (undoStack (setCells ms s)) = 20"
    by (simp add: length_history)
  have "grid (undos 20 (setCells ms s)) = history (setCells ms s) ! (length (history (setCells ms s)) - 20)"
    by (rule grid_undos) (simp_all add: len)
  also have "\<dots> = drop 5 ?G ! 0"
    unfolding len by (simp only: h diff_self_eq_0)
  also have "\<dots> = grid (setCells (take 5 ms) s)"
    using assms(3) by simp
  finally show "grid (undos 20 (setCells ms s)) = grid (setCells (take 5 ms) s)" .
qed

text \<open>
  Claim C3. The undo history never holds more than 20 snapshots once a handler has
  finished, whatever the events were; when it is full, \<open>saveState\<close> drops the oldest
  snapshot and appends the new one; and after 25 cell mutations on a document with an
  empty history the history holds exactly 20 snapshots, and 20 undos bring back the
  grid as it was right after the fifth mutation.
\<close>

theorem history_bounded_fifo:
  "length (undoStack (run draw evs startup)) \<le> 20
   \<and> (wf_state s \<and> length (undoStack s) = 20 \<longrightarrow> history (saveState s) = tl (history s) @ [grid s])
   \<and> (wf_state s \<and> undoStack s = [] \<and> length ms = 25 \<longrightarrow>
        length (undoStack (setCells ms s)) = 20
        \<and> grid (undos 20 (setCells ms s)) = grid (setCells (take 5 ms) s))"
proof (intro conjI impI)
  show "length (undoStack (run draw evs startup)) \<le> 20"
    by (rule bounded_run) (simp add: undoStack_startup)
next
  assume "wf_state s \<and> length (undoStack s) = 20"
  then show "history (saveState s) = tl (history s) @ [grid s]"
    by (simp add: history_saveState_full)
next
  assume a: "wf_state s \<and> undoStack s = [] \<and> length ms = 25"
  then show "length (undoStack (setCells ms s)) = 20"
    by (simp add: twenty_five_mutations(1))
  from a show "grid (undos 20 (setCells ms s)) = grid (setCells (take 5 ms) s)"
    by (simp add: twenty_five_mutations(2))
qed

theorem history_bounded_fifo_witness:
  "length (undoStack (run nearestNeighbor [ClickBrick 0 0, ClickUndo, ClickClear True] startup)) \<le> 20
   \<and> wf_state startup \<and> undoStack startup = []
   \<and> length (map (\<lambda>i. (int i, 0::int, Swatch (i mod 20))) [0..<25]) = 25
   \<and> length (undoStack (setCells (map (\<lambda>i. (int i, 0, Swatch (i mod 20))) [0..<25]) startup)) = 20
   \<and> grid (undos 20 (setCells (map (\<lambda>i. (int i, 0, Swatch (i mod 20))) [0..<25]) startup))
       = grid (setCells (take 5 (map (\<lambda>i. (int i, 0, Swatch (i mod 20))) [0..<25])) startup)
   \<and> wf_state (setCells (map (\<lambda>i. (int i, 0, Swatch (i mod 20))) [0..<25]) startup)
   \<and> history (saveState (setCells (map (\<lambda>i. (int i, 0, Swatch (i mod 20))) [0..<25]) startup))
       = tl (history (setCells (map (\<lambda>i. (int i, 0, Swatch (i mod 20))) [0..<25]) startup))
         @ [grid (setCells (map (\<lambda>i. (int i, 0, Swatch (i mod 20))) [0..<25]) startup)]"
proof -
  let ?ms = "map (\<lambda>i. (int i, 0::int, Swatch (i mod 20))) [0..<25]"
  have len: "length ?ms = 25" by simp
  note a = history_bounded_fifo [of nearestNeighbor "[ClickBrick 0 0, ClickUndo, ClickClear True]" startup ?ms]
  have full: "length (undoStack (setCells ?ms startup)) = 20"
    using a wf_startup undoStack_startup len by blast
  note b = history_bounded_fifo [of nearestNeighbor "[]" "setCells ?ms startup" "[]"]
  have w: "wf_state (setCells ?ms startup)" by (rule wf_setCells [OF wf_startup])
  have "history (saveState (setCells ?ms startup))
          = tl (history (setCells ?ms startup)) @ [grid (setCells ?ms startup)]"
    using b w full by blast
  then show ?thesis
    using a wf_startup undoStack_startup len w by blast
qed

section \<open>The start-up document\<close>

lemma canvasSize_startup: "canvasSize startup = 32"
  by (simp add: startup_def selectColor_def initializeCanvas_globals initial_def)

lemma legoGrid_startup: "legoGrid startup = [0..<32]"
  by (simp add: startup_def selectColor_def initializeCanvas_globals initial_def)

lemma grid_selectColor: "grid (selectColor c s) = grid s"
  by (simp add: selectColor_def grid_def snapshot_def)

lemma grid_startup: "grid startup = replicate 32 (replicate 32 Null)"
  by (simp add: startup_def grid_selectColor grid_initializeCanvas initial_def)

lemma currentColor_startup: "currentColor startup = ''#C91A09''"
  by (simp add: startup_def selectColor_def legoColors_def)

lemma isEraserMode_startup: "isEraserMode startup = False"
  by (simp add: startup_def selectColor_def initializeCanvas_globals initial_def)



section \<open>redrawCanvas\<close>

lemma redraw_bricks_eq:
  "redraw_bricks bs s = (if \<forall>rc \<in> set bs. fst rc < length (legoGrid s) then Done else TypeError)"
proof (induction bs)
  case Nil
  then show ?case by simp
next
  case (Cons rc bs)
  obtain row col where rc: "rc = (row, col)" by (cases rc)
  show ?case unfolding rc using Cons.IH by simp
qed

lemma redrawCanvas_eq: "redrawCanvas s = (if page_fits s then Done else TypeError)"
  by (simp add: redrawCanvas_def redraw_bricks_eq page_fits_def)

lemma page_fits_cong:
  "bricks s' = bricks s \<Longrightarrow> length (legoGrid s') = length (legoGrid s) \<Longrightarrow>
     page_fits s' = page_fits s"
  by (simp add: page_fits_def)

lemma outcome_undo:
  assumes "undoStack s \<noteq> []"
  shows "fst (undo s) = (if page_fits (snd (undo s)) then Done else TypeError)"
  using assms by (simp add: undo_nonempty redrawCanvas_eq)





section \<open>Mutations go through the history\<close>

lemma undoStack_saved_not_Nil:
  "touches_live (saveState s) s' \<Longrightarrow> undoStack s' \<noteq> []"
  by (simp add: touches_live_def saveState_globals push_bounded_not_Nil)

lemma roundtrip_after_save:
  assumes "wf_state s" and "touches_live (saveState s) s'"
  shows "history s' = push_bounded (history s) (grid s)"
    and "last (history s') = grid s"
    and "fst (undo s') = (if page_fits s then Done else TypeError)"
    and "grid (snd (undo s')) = grid s"
proof -
  show h: "history s' = push_bounded (history s) (grid s)"
    using touches_live_history [OF assms(2) wf_saveState [OF assms(1)]]
    by (simp add: history_saveState [OF assms(1)])
  then show l: "last (history s') = grid s"
    by (simp add: last_push_bounded)
  have ne: "undoStack s' \<noteq> []"
    by (rule undoStack_saved_not_Nil [OF assms(2)])
  have "last (undoStack s') = [fresh s ..< fresh s + length (legoGrid s)]"
    using assms(2) by (simp add: touches_live_def saveState_globals last_push_bounded)
  then have "length (legoGrid (snd (undo s'))) = length (legoGrid s)"
    using ne by (simp add: undo_nonempty)
  moreover have "bricks (snd (undo s')) = bricks s"
    using ne assms(2) by (simp add: undo_nonempty touches_live_def saveState_globals)
  ultimately have "page_fits (snd (undo s')) = page_fits s"
    by (intro page_fits_cong)
  then show "fst (undo s') = (if page_fits s then Done else TypeError)"
    by (simp add: outcome_undo [OF ne])
  show "grid (snd (undo s')) = grid s"
    using grid_undo [OF ne] l by simp
qed



section \<open>Snapshots share no array with the live grid\<close>

lemma stored_rows_old:
  assumes "wf_state s" and "rows \<in> set (undoStack s)" and "p \<in> set rows"
  shows "p < fresh s" and "p \<notin> set (legoGrid s)"
proof -
  from assms(2,3) have "p \<in> set (concat (undoStack s))" by auto
  with assms(1) show "p < fresh s" and "p \<notin> set (legoGrid s)"
    by (auto simp: wf_state_def)
qed

lemma stored_after_save:
  assumes "wf_state s" and "rows \<in> set (undoStack s)" and "touches_live (saveState s) s'"
  shows "map (heap s') rows = map (heap s) rows"
proof (rule map_cong [OF refl])
  fix p assume p: "p \<in> set rows"
  have "p \<notin> set (legoGrid (saveState s))"
    using stored_rows_old(2) [OF assms(1,2) p] by (simp add: saveState_globals)
  then have "heap s' p = heap (saveState s) p"
    using assms(3) by (simp add: touches_live_def)
  also have "\<dots> = heap s p"
    by (rule saveState_heap_old) (rule stored_rows_old(1) [OF assms(1,2) p])
  finally show "heap s' p = heap s p" .
qed

text \<open>
  Claim C8. A snapshot that \<open>saveState\<close> has stored in the history keeps its value
  under every later write to the live grid: the bare assignment
  \<^verbatim>\<open>legoGrid[row][col] = v\<close>, \<open>placeBrick\<close> and \<open>processImageToLego\<close> leave every row
  array of every stored snapshot exactly as it was. With \<open>saveState s0\<close> for \<open>s\<close> this
  covers the snapshot just stored.
\<close>

theorem snapshots_not_aliased:
  assumes "wf_state s" and "rows \<in> set (undoStack s)"
  shows "map (heap (snd (grid_assign row col v s))) rows = map (heap s) rows
       \<and> map (heap (snd (placeBrick row col s))) rows = map (heap s) rows
       \<and> map (heap (snd (processImageToLego draw img s))) rows = map (heap s) rows
       \<and> snapshot (snd (grid_assign row col v s)) rows = snapshot s rows
       \<and> snapshot (snd (placeBrick row col s)) rows = snapshot s rows
       \<and> snapshot (snd (processImageToLego draw img s)) rows = snapshot s rows"
proof -
  have a: "map (heap (snd (grid_assign row col v s))) rows = map (heap s) rows"
    by (rule touches_live_stored [OF touches_live_grid_assign assms])
  have b: "map (heap (snd (placeBrick row col s))) rows = map (heap s) rows"
    by (rule stored_after_save [OF assms touches_live_placeBrick])
  have c: "map (heap (snd (processImageToLego draw img s))) rows = map (heap s) rows"
    by (rule stored_after_save [OF assms touches_live_processImageToLego])
  have v: "snapshot s' rows = snapshot s rows" if "map (heap s') rows = map (heap s) rows" for s'
  proof -
    have "map elems (map (heap s') rows) = map elems (map (heap s) rows)"
      using that by (simp only:)
    then show ?thesis by (simp add: snapshot_def)
  qed
  show ?thesis
    using a b c v [OF a] v [OF b] v [OF c] by blast
qed

lemma undoStack_saveState_startup: "undoStack (saveState startup) = [[32..<64]]"
  by (simp add: saveState_globals undoStack_startup legoGrid_startup push_bounded_alt
        startup_def selectColor_def initializeCanvas_globals initial_def)

theorem snapshots_not_aliased_witness:
  "wf_state (saveState startup) \<and> [32..<64] \<in> set (undoStack (saveState startup))
   \<and> map (heap (snd (grid_assign 5 6 (Color ''#C91A09'') (saveState startup)))) [32..<64]
       = map (heap (saveState startup)) [32..<64]
   \<and> snapshot (snd (placeBrick 5 6 (saveState startup))) [32..<64]
       = snapshot (saveState startup) [32..<64]
   \<and> snapshot (snd (processImageToLego nearestNeighbor
         \<lparr>img_width = 1, img_height = 1, img_data = [10, 20, 30, 255]\<rparr> (saveState startup))) [32..<64]
       = snapshot (saveState startup) [32..<64]"
proof -
  have w: "wf_state (saveState startup)" by (rule wf_saveState [OF wf_startup])
  have m: "[32..<64] \<in> set (undoStack (saveState startup))"
    by (simp add: undoStack_saveState_startup)
  show ?thesis
    using snapshots_not_aliased [OF w m, of 5 6 "Color ''#C91A09''" nearestNeighbor
      "\<lparr>img_width = 1, img_height = 1, img_data = [10, 20, 30, 255]\<rparr>"] w m
    by blast
qed

section \<open>undo on an empty history\<close>

text \<open>
  Claim C9. With an empty history, as on the document the page starts with, \<open>undo\<close>
  reports that there is nothing to undo (the alert) and returns without writing any
  variable: the grid and the history are what they were.
\<close>

theorem undo_nothing:
  "undoStack startup = [] \<and> (undoStack s = [] \<longrightarrow> undo s = (NothingToUndo, s))"
  by (simp add: undoStack_startup undo_empty)

theorem undo_nothing_witness:
  "undoStack startup = [] \<and> undo startup = (NothingToUndo, startup)
   \<and> grid (snd (undo startup)) = grid startup \<and> history (snd (undo startup)) = []"
proof -
  have "undo startup = (NothingToUndo, startup)"
    using undo_nothing [of startup] by blast
  then show ?thesis
    by (simp add: undoStack_startup history_def)
qed

section \<open>An edit that changes nothing still uses the history\<close>

lemma grid_nth: "i < length (legoGrid s) \<Longrightarrow> grid s ! i = elems (heap s (legoGrid s ! i))"
  by (simp add: grid_def snapshot_def)

lemma length_grid: "length (grid s) = length (legoGrid s)"
  by (simp add: grid_def snapshot_def)

lemma grid_placeBrick:
  assumes "wf_state s" and "0 \<le> row" and "nat row < length (legoGrid s)"
  shows "grid (snd (placeBrick row col s)) =
           (grid s)[nat row := elems (array_set (heap s (legoGrid s ! nat row)) col
                                        (if isEraserMode s then Null else Color (currentColor s)))]"
proof -
  let ?v = "if isEraserMode s then Null else Color (currentColor s)"
  from assms(1) have d: "distinct (legoGrid s)" and "legoGrid s ! nat row < fresh s"
    using assms(3) by (auto simp: wf_state_def)
  then have h: "heap (saveState s) (legoGrid s ! nat row) = heap s (legoGrid s ! nat row)"
    by (simp add: saveState_heap_old)
  have "grid (snd (grid_assign row col ?v (saveState s))) =
          (grid (saveState s))[nat row :=
             elems (array_set (heap (saveState s) (legoGrid (saveState s) ! nat row)) col ?v)]"
    by (rule grid_grid_assign) (simp_all add: saveState_globals d assms)
  then show ?thesis
    by (simp add: placeBrick_alt saveState_globals h grid_saveState [OF assms(1)])
qed

lemma outcome_placeBrick:
  "fst (placeBrick row col s) = (if 0 \<le> row \<and> nat row < length (legoGrid s) then Done else TypeError)"
  by (simp add: placeBrick_alt grid_assign_outcome saveState_globals)



section \<open>Changing the grid size\<close>

lemma canvasSizeChange_confirmed:
  "canvasSizeChange n True s = initializeCanvas (s\<lparr>canvasSize := n\<rparr>)"
  by (simp add: canvasSizeChange_def)

lemma history_canvasSize_update: "history (s\<lparr>canvasSize := n\<rparr>) = history s"
proof -
  have "snapshot (s\<lparr>canvasSize := n\<rparr>) = snapshot s"
    by (rule snapshot_heap_eq) simp
  then show ?thesis by (simp add: history_def)
qed

lemma resize_effect:
  "grid (canvasSizeChange n True s) = replicate n (replicate n Null)"
  "canvasSize (canvasSizeChange n True s) = n"
  "undoStack (canvasSizeChange n True s) = undoStack s"
  "wf_state s \<Longrightarrow> history (canvasSizeChange n True s) = history s"
proof -
  show "grid (canvasSizeChange n True s) = replicate n (replicate n Null)"
    by (simp add: canvasSizeChange_confirmed grid_initializeCanvas)
  show "canvasSize (canvasSizeChange n True s) = n"
    by (simp add: canvasSizeChange_confirmed initializeCanvas_globals)
  show "undoStack (canvasSizeChange n True s) = undoStack s"
    by (simp add: canvasSizeChange_confirmed initializeCanvas_globals)
  assume "wf_state s"
  then have "wf_state (s\<lparr>canvasSize := n\<rparr>)" by (simp add: wf_canvasSize_update)
  then show "history (canvasSizeChange n True s) = history s"
    by (simp add: canvasSizeChange_confirmed history_initializeCanvas history_canvasSize_update)
qed

text \<open>
  Claim C4, as the specification states it, fails: a resize after one brick was placed
  leaves the snapshot of that edit in the history.
\<close>

theorem resize_keeps_history_counterexample:
  "grid (canvasSizeChange 16 True (snd (placeBrick 0 0 startup))) = replicate 16 (replicate 16 Null)
   \<and> length (undoStack (canvasSizeChange 16 True (snd (placeBrick 0 0 startup)))) = 1
   \<and> undoStack (canvasSizeChange 16 True (snd (placeBrick 0 0 startup))) \<noteq> []"
proof -
  have "length (undoStack (snd (placeBrick 0 0 startup))) = 1"
    by (simp add: undoStack_placeBrick undoStack_startup push_bounded_alt)
  then show ?thesis
    by (auto simp: resize_effect)
qed

text \<open>
  Claim C4, amended. A confirmed change of the grid size sets \<open>canvasSize\<close> and yields
  an all-empty grid of the new dimension. The undo history is not touched: it holds
  the same snapshots, with the same values, as before the resize.
\<close>

theorem resize_empties_grid_keeps_history:
  "grid (canvasSizeChange n True s) = replicate n (replicate n Null)
   \<and> canvasSize (canvasSizeChange n True s) = n
   \<and> undoStack (canvasSizeChange n True s) = undoStack s
   \<and> (wf_state s \<longrightarrow> history (canvasSizeChange n True s) = history s)"
  by (simp add: resize_effect)

theorem resize_empties_grid_keeps_history_witness:
  "wf_state (snd (placeBrick 0 0 startup))
   \<and> grid (canvasSizeChange 48 True (snd (placeBrick 0 0 startup))) = replicate 48 (replicate 48 Null)
   \<and> history (canvasSizeChange 48 True (snd (placeBrick 0 0 startup)))
       = history (snd (placeBrick 0 0 startup))
   \<and> history (canvasSizeChange 48 True (snd (placeBrick 0 0 startup))) = [grid startup]"
proof -
  have w: "wf_state (snd (placeBrick 0 0 startup))" by (rule wf_placeBrick [OF wf_startup])
  have "history startup = []" by (simp add: history_def undoStack_startup)
  then have h: "history (snd (placeBrick 0 0 startup)) = [grid startup]"
    by (simp add: history_placeBrick [OF wf_startup] push_bounded_alt)
  show ?thesis
    using resize_empties_grid_keeps_history [of 48 "snd (placeBrick 0 0 startup)"] w h
    by simp
qed

section \<open>placeBrick and its coordinates\<close>

lemma grid_placeBrick_outside:
  assumes "wf_state s" and "\<not> (0 \<le> row \<and> nat row < length (legoGrid s))"
  shows "placeBrick row col s = (TypeError, saveState s)"
    and "grid (snd (placeBrick row col s)) = grid s"
proof -
  show "placeBrick row col s = (TypeError, saveState s)"
    unfolding placeBrick_alt using assms(2)
    by (intro grid_assign_outside) (simp add: saveState_globals)
  then show "grid (snd (placeBrick row col s)) = grid s"
    by (simp add: grid_saveState [OF assms(1)])
qed

text \<open>
  Claim C7, as the specification states it, fails: \<open>placeBrick\<close> checks nothing. On the
  32 by 32 start-up grid a click at row 40 ends in a \<^verbatim>\<open>TypeError\<close> after the snapshot
  was pushed, so the history has changed; a click at row 0, column 40 ends normally and
  has stretched row 0 to 41 slots.
\<close>

theorem placeBrick_unchecked_counterexample:
  "undoStack startup = []
   \<and> fst (placeBrick 40 0 startup) = TypeError
   \<and> length (undoStack (snd (placeBrick 40 0 startup))) = 1
   \<and> fst (placeBrick 0 40 startup) = Done
   \<and> length (grid startup ! 0) = 32
   \<and> length (grid (snd (placeBrick 0 40 startup)) ! 0) = 41"
proof -
  have a: "fst (placeBrick 40 0 startup) = TypeError"
    by (simp add: outcome_placeBrick legoGrid_startup)
  have b: "length (undoStack (snd (placeBrick 40 0 startup))) = 1"
    by (simp add: undoStack_placeBrick undoStack_startup push_bounded_alt)
  have c: "fst (placeBrick 0 40 startup) = Done"
    by (simp add: outcome_placeBrick legoGrid_startup)
  let ?a = "heap startup (legoGrid startup ! 0)"
  let ?v = "if isEraserMode startup then Null else Color (currentColor startup)"
  have r: "elems ?a = replicate 32 Null"
    using grid_nth [of 0 startup] by (simp add: grid_startup legoGrid_startup)
  have e: "elems (array_set ?a 40 ?v) = elems ?a @ replicate (nat 40 - length (elems ?a)) Undefined @ [?v]"
    by (rule elems_array_set_beyond) (simp_all add: r)
  have "grid (snd (placeBrick 0 40 startup)) = (grid startup)[0 := elems (array_set ?a 40 ?v)]"
    using grid_placeBrick [OF wf_startup, of 0 40] by (simp add: legoGrid_startup)
  then have "grid (snd (placeBrick 0 40 startup)) ! 0 = elems (array_set ?a 40 ?v)"
    by (simp add: grid_startup)
  then have d: "length (grid (snd (placeBrick 0 40 startup)) ! 0) = 41"
    unfolding e r by simp
  show ?thesis
    using a b c d by (simp add: undoStack_startup grid_startup)
qed

text \<open>
  Claim C7, amended. \<open>placeBrick\<close> does not validate its coordinates and has no
  out-of-bounds result. It always pushes the snapshot first. For in-bounds coordinates
  it then sets the target cell to the current colour, or to empty in eraser mode, and no
  other cell. For a row outside the grid the write throws a \<^verbatim>\<open>TypeError\<close> and the
  cells stay as they are. For a row inside the grid and a column outside it the
  handler ends normally: a negative column changes no cell, a column past the end
  extends the row up to that column.
\<close>

theorem placeBrick_no_validation:
  assumes "wf_state s"
  shows "history (snd (placeBrick row col s)) = push_bounded (history s) (grid s)
       \<and> (0 \<le> row \<and> nat row < length (legoGrid s) \<and> 0 \<le> col \<and> nat col < length (grid s ! nat row) \<longrightarrow>
            fst (placeBrick row col s) = Done
            \<and> grid (snd (placeBrick row col s)) =
                (grid s)[nat row := (grid s ! nat row)[nat col :=
                   (if isEraserMode s then Null else Color (currentColor s))]])
       \<and> (\<not> (0 \<le> row \<and> nat row < length (legoGrid s)) \<longrightarrow>
            fst (placeBrick row col s) = TypeError \<and> grid (snd (placeBrick row col s)) = grid s)
       \<and> (0 \<le> row \<and> nat row < length (legoGrid s) \<and> col < 0 \<longrightarrow>
            fst (placeBrick row col s) = Done \<and> grid (snd (placeBrick row col s)) = grid s)
       \<and> (0 \<le> row \<and> nat row < length (legoGrid s) \<and> 0 \<le> col \<and> length (grid s ! nat row) \<le> nat col \<longrightarrow>
            fst (placeBrick row col s) = Done
            \<and> grid (snd (placeBrick row col s)) =
                (grid s)[nat row := grid s ! nat row
                   @ replicate (nat col - length (grid s ! nat row)) Undefined
                   @ [if isEraserMode s then Null else Color (currentColor s)]])"
proof (intro conjI impI)
  show "history (snd (placeBrick row col s)) = push_bounded (history s) (grid s)"
    by (rule history_placeBrick [OF assms])
next
  assume a: "0 \<le> row \<and> nat row < length (legoGrid s) \<and> 0 \<le> col \<and> nat col < length (grid s ! nat row)"
  then show "fst (placeBrick row col s) = Done" by (simp add: outcome_placeBrick)
  from a have r: "grid s ! nat row = elems (heap s (legoGrid s ! nat row))" by (simp add: grid_nth)
  show "grid (snd (placeBrick row col s)) =
          (grid s)[nat row := (grid s ! nat row)[nat col :=
             (if isEraserMode s then Null else Color (currentColor s))]]"
    using a grid_placeBrick [OF assms, of row col]
    by (simp add: elems_array_set_inside r [symmetric])
next
  assume a: "\<not> (0 \<le> row \<and> nat row < length (legoGrid s))"
  then show "fst (placeBrick row col s) = TypeError" by (simp add: outcome_placeBrick)
  from a show "grid (snd (placeBrick row col s)) = grid s"
    by (rule grid_placeBrick_outside(2) [OF assms])
next
  assume a: "0 \<le> row \<and> nat row < length (legoGrid s) \<and> col < 0"
  then show "fst (placeBrick row col s) = Done" by (simp add: outcome_placeBrick)
  from a have r: "grid s ! nat row = elems (heap s (legoGrid s ! nat row))" by (simp add: grid_nth)
  show "grid (snd (placeBrick row col s)) = grid s"
    using a grid_placeBrick [OF assms, of row col]
    by (simp add: elems_array_set_negative r [symmetric] list_update_id)
next
  assume a: "0 \<le> row \<and> nat row < length (legoGrid s) \<and> 0 \<le> col \<and> length (grid s ! nat row) \<le> nat col"
  then show "fst (placeBrick row col s) = Done" by (simp add: outcome_placeBrick)
  from a have r: "grid s ! nat row = elems (heap s (legoGrid s ! nat row))" by (simp add: grid_nth)
  show "grid (snd (placeBrick row col s)) =
          (grid s)[nat row := grid s ! nat row
             @ replicate (nat col - length (grid s ! nat row)) Undefined
             @ [if isEraserMode s then Null else Color (currentColor s)]]"
    using a grid_placeBrick [OF assms, of row col]
    by (simp add: elems_array_set_beyond r [symmetric])
qed

theorem placeBrick_no_validation_witness:
  "wf_state startup
   \<and> history (snd (placeBrick 2 3 startup)) = [grid startup]
   \<and> fst (placeBrick 2 3 startup) = Done
   \<and> grid (snd (placeBrick 2 3 startup))
       = (replicate 32 (replicate 32 Null))[2 := (replicate 32 Null)[3 := Color ''#C91A09'']]
   \<and> fst (placeBrick (- 1) 3 startup) = TypeError
   \<and> grid (snd (placeBrick (- 1) 3 startup)) = grid startup
   \<and> fst (placeBrick 2 (- 3) startup) = Done
   \<and> grid (snd (placeBrick 2 (- 3) startup)) = grid startup
   \<and> fst (placeBrick 2 33 startup) = Done
   \<and> grid (snd (placeBrick 2 33 startup))
       = (replicate 32 (replicate 32 Null))[2 := replicate 32 Null @ [Undefined, Color ''#C91A09'']]"
proof -
  have h: "history startup = []" by (simp add: history_def undoStack_startup)
  have r: "replicate (Suc 0) Undefined = [Undefined]" by simp
  note facts = legoGrid_startup grid_startup isEraserMode_startup currentColor_startup
    push_bounded_alt h
  show ?thesis
    using placeBrick_no_validation [OF wf_startup, of 2 3]
          placeBrick_no_validation [OF wf_startup, of "- 1" 3]
          placeBrick_no_validation [OF wf_startup, of 2 "- 3"]
          placeBrick_no_validation [OF wf_startup, of 2 33]
          wf_startup
    by (simp add: facts)
qed

section \<open>Palette closure\<close>

lemma closest_step_fst: "fst (closest_step r g b acc c) \<in> {fst acc, hex c}"
  by (simp add: closest_step_def Let_def)

lemma foldl_closest_step_fst:
  "fst (foldl (closest_step r g b) acc cs) \<in> insert (fst acc) (hex ` set cs)"
proof (induction cs arbitrary: acc)
  case Nil
  then show ?case by simp
next
  case (Cons c cs)
  have "fst (foldl (closest_step r g b) (closest_step r g b acc c) cs)
          \<in> insert (fst (closest_step r g b acc c)) (hex ` set cs)"
    by (rule Cons.IH)
  moreover have "fst (closest_step r g b acc c) \<in> {fst acc, hex c}"
    by (rule closest_step_fst)
  ultimately show ?case by auto
qed

lemma findClosestLegoColor_in_palette: "findClosestLegoColor r g b \<in> hex ` set legoColors"
proof -
  have "legoColors ! 0 \<in> set legoColors"
    using legoColors_nonempty by (intro nth_mem) simp
  then have "hex (legoColors ! 0) \<in> hex ` set legoColors" by (rule imageI)
  then show ?thesis
    using foldl_closest_step_fst [of r g b "(hex (legoColors ! 0), Infinity)" legoColors]
    by (auto simp: findClosestLegoColor_def)
qed

lemma in_palette_simps:
  "in_palette Null" "in_palette Undefined" "in_palette (Color h) = (h \<in> hex ` set legoColors)"
  by (simp_all add: in_palette_def)

lemma closed_replicate_Null: "palette_closed (replicate n (replicate m Null))"
  by (auto simp: palette_closed_def in_palette_simps)

lemma closed_update:
  assumes "palette_closed g" and "\<forall>c \<in> set row. in_palette c"
  shows "palette_closed (g[i := row])"
proof -
  have "set (g[i := row]) \<subseteq> insert row (set g)" by (rule set_update_subset_insert)
  then show ?thesis using assms by (auto simp: palette_closed_def)
qed

lemma in_palette_array_set:
  assumes "\<forall>c \<in> set (elems a). in_palette c" and "in_palette v"
  shows "\<forall>c \<in> set (elems (array_set a i v)). in_palette c"
proof
  fix c assume "c \<in> set (elems (array_set a i v))"
  then have "c = v \<or> c = Undefined \<or> c \<in> set (elems a)"
    using set_elems_array_set [of a i v] by auto
  then show "in_palette c"
    using assms by (auto simp: in_palette_simps)
qed

lemma closed_grid_assign:
  assumes "distinct (legoGrid s)" and "palette_closed (grid s)" and "in_palette v"
  shows "palette_closed (grid (snd (grid_assign row col v s)))"
proof (cases "0 \<le> row \<and> nat row < length (legoGrid s)")
  case True
  then have "grid s ! nat row \<in> set (grid s)"
    by (intro nth_mem) (simp add: length_grid)
  then have "\<forall>c \<in> set (elems (heap s (legoGrid s ! nat row))). in_palette c"
    using assms(2) True by (simp add: palette_closed_def grid_nth)
  then have "\<forall>c \<in> set (elems (array_set (heap s (legoGrid s ! nat row)) col v)). in_palette c"
    using assms(3) by (rule in_palette_array_set)
  with assms(2) have "palette_closed ((grid s)[nat row := elems (array_set (heap s (legoGrid s ! nat row)) col v)])"
    by (rule closed_update)
  then show ?thesis
    using True by (simp add: grid_grid_assign [OF assms(1)])
next
  case False
  then show ?thesis using assms(2) by (simp add: grid_assign_outside)
qed

lemma closed_fill_cells:
  assumes "distinct (legoGrid s)" and "palette_closed (grid s)"
  shows "palette_closed (grid (snd (fill_cells pixels n cells s)))"
  using assms
proof (induction cells arbitrary: s)
  case Nil
  then show ?case by simp
next
  case (Cons rc cells)
  obtain row col where rc: "rc = (row, col)" by (cases rc)
  let ?c = "Color (findClosestLegoColor (pixel_read pixels ((row * n + col) * 4))
                                        (pixel_read pixels ((row * n + col) * 4 + 1))
                                        (pixel_read pixels ((row * n + col) * 4 + 2)))"
  let ?s1 = "snd (grid_assign (int row) (int col) ?c s)"
  have c1: "palette_closed (grid ?s1)"
    using Cons.prems by (intro closed_grid_assign) (simp_all add: in_palette_simps findClosestLegoColor_in_palette)
  have d1: "distinct (legoGrid ?s1)"
    using Cons.prems(1) touches_live_grid_assign [of s "int row" "int col" ?c]
    by (simp add: touches_live_def)
  show ?case
  proof (cases "fst (grid_assign (int row) (int col) ?c s) = Done")
    case True
    then show ?thesis
      unfolding rc fill_cells_Cons using Cons.IH [OF d1 c1] by (simp add: Let_def)
  next
    case False
    then show ?thesis
      unfolding rc fill_cells_Cons using c1 by (simp add: Let_def)
  qed
qed

lemma views_cong:
  assumes "heap s' = heap s" and "legoGrid s' = legoGrid s" and "undoStack s' = undoStack s"
  shows "grid s' = grid s" and "history s' = history s"
  using assms snapshot_heap_eq [OF assms(1)] by (simp_all add: grid_def history_def)

lemma closed_history_push:
  assumes "\<forall>g \<in> set H. palette_closed g" and "palette_closed x"
  shows "\<forall>g \<in> set (push_bounded H x). palette_closed g"
  using assms set_push_bounded [of H x] by auto

lemma closed_state_after_save:
  assumes "closed_state s" and "wf_state s" and "touches_live (saveState s) s'" and "palette_closed (grid s')"
  shows "closed_state s'"
proof -
  have "history s' = push_bounded (history s) (grid s)"
    by (rule roundtrip_after_save(1) [OF assms(2,3)])
  moreover have "\<forall>g \<in> set (push_bounded (history s) (grid s)). palette_closed g"
    using assms(1) by (intro closed_history_push) (simp_all add: closed_state_def)
  moreover have "currentColor s' = currentColor s"
    using assms(3) by (simp add: touches_live_def saveState_globals)
  ultimately show ?thesis
    using assms(1,4) by (simp add: closed_state_def)
qed

lemma closed_state_saveState:
  assumes "closed_state s" and "wf_state s"
  shows "closed_state (saveState s)"
  using assms closed_state_after_save [OF assms touches_live_refl]
  by (simp add: grid_saveState closed_state_def)

lemma closed_state_placeBrick:
  assumes "closed_state s" and "wf_state s"
  shows "closed_state (snd (placeBrick row col s))"
proof (rule closed_state_after_save [OF assms touches_live_placeBrick])
  have d: "distinct (legoGrid (saveState s))"
    using assms(2) by (simp add: saveState_globals wf_state_def)
  have c: "palette_closed (grid (saveState s))"
    using assms by (simp add: grid_saveState closed_state_def)
  have "in_palette (if isEraserMode s then Null else Color (currentColor s))"
    using assms(1) by (simp add: in_palette_simps closed_state_def)
  then show "palette_closed (grid (snd (placeBrick row col s)))"
    unfolding placeBrick_alt by (rule closed_grid_assign [OF d c])
qed

lemma closed_state_processImageToLego:
  assumes "closed_state s" and "wf_state s"
  shows "closed_state (snd (processImageToLego draw img s))"
proof (rule closed_state_after_save [OF assms touches_live_processImageToLego])
  have d: "distinct (legoGrid (saveState s))"
    using assms(2) by (simp add: saveState_globals wf_state_def)
  have c: "palette_closed (grid (saveState s))"
    using assms by (simp add: grid_saveState closed_state_def)
  show "palette_closed (grid (snd (processImageToLego draw img s)))"
    unfolding processImageToLego_alt
    by (cases "draw img (canvasSize s)") (simp_all add: c closed_fill_cells [OF d c])
qed

lemma closed_state_undo:
  assumes "closed_state s"
  shows "closed_state (snd (undo s))"
proof (cases "undoStack s = []")
  case True
  then show ?thesis using assms by (simp add: undo_empty)
next
  case False
  then have ne: "history s \<noteq> []" by (simp add: history_def)
  then have "last (history s) \<in> set (history s)" by (rule last_in_set)
  then have "palette_closed (grid (snd (undo s)))"
    using assms by (simp add: grid_undo [OF False] closed_state_def)
  moreover have "\<forall>g \<in> set (history (snd (undo s))). palette_closed g"
    using assms by (auto simp: history_undo closed_state_def dest: in_set_butlastD)
  moreover have "currentColor (snd (undo s)) = currentColor s"
    using False by (simp add: undo_nonempty)
  ultimately show ?thesis
    using assms by (simp add: closed_state_def)
qed

lemma closed_state_initializeCanvas:
  assumes "closed_state s" and "wf_state s"
  shows "closed_state (initializeCanvas s)"
  using assms
  by (simp add: closed_state_def grid_initializeCanvas closed_replicate_Null
        history_initializeCanvas initializeCanvas_globals)

lemma closed_state_canvasSize_update: "closed_state (s\<lparr>canvasSize := n\<rparr>) = closed_state s"
  using views_cong [of "s\<lparr>canvasSize := n\<rparr>" s] by (simp add: closed_state_def)

lemma closed_state_fire:
  assumes "closed_state s" and "wf_state s"
  shows "closed_state (fire draw ev s)"
proof (cases ev)
  case (ClickBrick row col)
  then show ?thesis using assms by (simp add: closed_state_placeBrick)
next
  case (ClickSwatch i)
  show ?thesis
  proof (cases "i < length legoColors")
    case True
    let ?s' = "swatchClick (legoColors ! i) s"
    have "grid ?s' = grid s" "history ?s' = history s"
      by (rule views_cong; simp add: swatchClick_def selectColor_def)+
    moreover have "currentColor ?s' \<in> hex ` set legoColors"
      using True by (simp add: swatchClick_def selectColor_def)
    ultimately show ?thesis
      using assms(1) ClickSwatch True by (simp add: closed_state_def)
  next
    case False
    then show ?thesis using assms(1) ClickSwatch by simp
  qed
next
  case ClickEraser
  have "grid (toggleEraser s) = grid s" "history (toggleEraser s) = history s"
    by (rule views_cong; simp add: toggleEraser_def)+
  then show ?thesis
    using assms(1) ClickEraser by (simp add: closed_state_def toggleEraser_def)
next
  case ClickUndo
  then show ?thesis using assms(1) by (simp add: closed_state_undo)
next
  case (ClickClear confirmed)
  then show ?thesis
    using assms
    by (simp add: clearCanvas_def closed_state_initializeCanvas closed_state_saveState wf_saveState)
next
  case (ChangeSize newSize confirmed)
  then show ?thesis
    using assms
    by (simp add: canvasSizeChange_def Let_def closed_state_initializeCanvas
          closed_state_canvasSize_update wf_canvasSize_update)
next
  case (ClickGenerate img)
  then show ?thesis using assms by (simp add: closed_state_processImageToLego)
qed

lemma closed_state_run:
  "closed_state s \<Longrightarrow> wf_state s \<Longrightarrow> closed_state (run draw evs s)"
  unfolding run_def
  by (induction evs arbitrary: s) (simp_all add: closed_state_fire wf_fire)

lemma closed_state_startup: "closed_state startup"
proof -
  have "hex (legoColors ! 0) \<in> hex ` set legoColors"
    using legoColors_nonempty by (intro imageI nth_mem) simp
  then have "currentColor startup \<in> hex ` set legoColors"
    by (simp add: startup_def selectColor_def)
  moreover have "history startup = []"
    by (simp add: history_def undoStack_startup)
  ultimately show ?thesis
    by (simp add: closed_state_def grid_startup closed_replicate_Null)
qed

text \<open>
  Claim C5. From the document the page starts with, after any sequence of user events
  (brick clicks that place or erase, swatch and eraser clicks, undo, clear, a size
  change, image generation with any canvas), every slot of the grid that holds a
  colour holds the code of an entry of \<open>legoColors\<close>; so do the slots of every snapshot
  in the history, and the selected colour is a palette colour.
\<close>

theorem palette_closure:
  "palette_closed (grid (run draw evs startup))
   \<and> (\<forall>g \<in> set (history (run draw evs startup)). palette_closed g)
   \<and> currentColor (run draw evs startup) \<in> hex ` set legoColors"
  using closed_state_run [OF closed_state_startup wf_startup, of draw evs]
  by (simp add: closed_state_def)

theorem palette_closure_witness:
  "grid (run nearestNeighbor [ClickSwatch 3, ClickBrick 0 0] startup) ! 0 ! 0 = Color ''#287F46''
   \<and> palette_closed (grid (run nearestNeighbor [ClickSwatch 3, ClickBrick 0 0] startup))
   \<and> in_palette (grid (run nearestNeighbor [ClickSwatch 3, ClickBrick 0 0] startup) ! 0 ! 0)"
proof -
  let ?s1 = "swatchClick (legoColors ! 3) startup"
  let ?s2 = "run nearestNeighbor [ClickSwatch 3, ClickBrick 0 0] startup"
  have r: "?s2 = snd (placeBrick 0 0 ?s1)"
    by (simp add: run_def legoColors_def)
  have w: "wf_state ?s1" by (rule wf_swatchClick [OF wf_startup])
  have v: "grid ?s1 = grid startup"
    by (rule views_cong) (simp_all add: swatchClick_def selectColor_def)
  have l: "legoGrid ?s1 = [0..<32]"
    by (simp add: swatchClick_def selectColor_def legoGrid_startup)
  have e: "elems (heap ?s1 (legoGrid ?s1 ! 0)) = replicate 32 Null"
    using grid_nth [of 0 ?s1] by (simp add: v grid_startup l)
  have cc: "currentColor ?s1 = ''#287F46''" "\<not> isEraserMode ?s1"
    by (simp_all add: swatchClick_def selectColor_def legoColors_def)
  have "grid (snd (placeBrick 0 0 ?s1)) =
          (grid ?s1)[0 := elems (array_set (heap ?s1 (legoGrid ?s1 ! 0)) 0 (Color ''#287F46''))]"
    using grid_placeBrick [OF w, of 0 0] by (simp add: l cc)
  then have g2: "grid ?s2 = (replicate 32 (replicate 32 Null))[0 := (replicate 32 Null)[0 := Color ''#287F46'']]"
    by (simp add: r v grid_startup elems_array_set_inside e)
  have c: "grid ?s2 ! 0 ! 0 = Color ''#287F46''"
    unfolding g2 by simp
  have cl: "palette_closed (grid ?s2)"
    using palette_closure [of nearestNeighbor "[ClickSwatch 3, ClickBrick 0 0]"] by blast
  have "grid ?s2 ! 0 \<in> set (grid ?s2)"
    unfolding g2 by (intro nth_mem) simp
  moreover have "grid ?s2 ! 0 ! 0 \<in> set (grid ?s2 ! 0)"
    unfolding g2 by (intro nth_mem) simp
  ultimately have "in_palette (grid ?s2 ! 0 ! 0)"
    using cl unfolding palette_closed_def by blast
  then show ?thesis using c cl by simp
qed

section \<open>Image generation\<close>

lemma fill_cells_result:
  assumes "distinct (legoGrid s)" and "\<forall>rc \<in> set cells. fst rc < length (legoGrid s)"
  shows "fst (fill_cells pixels n cells s) = Done
       \<and> (\<forall>i j. i < length (legoGrid s) \<longrightarrow>
            cell_at (snd (fill_cells pixels n cells s)) i j
              = (if (i, j) \<in> set cells then Color (cell_colour pixels n i j) else cell_at s i j))"
  using assms
proof (induction cells arbitrary: s)
  case Nil
  then show ?case by simp
next
  case (Cons rc cells)
  obtain row col where rc: "rc = (row, col)" by (cases rc)
  let ?c = "Color (cell_colour pixels n row col)"
  let ?s1 = "snd (grid_assign (int row) (int col) ?c s)"
  from Cons.prems(2) have row: "row < length (legoGrid s)" by (simp add: rc)
  have lg: "legoGrid ?s1 = legoGrid s"
    using touches_live_grid_assign [of s "int row" "int col" ?c] by (simp add: touches_live_def)
  have ok: "fst (grid_assign (int row) (int col) ?c s) = Done"
    using row by (simp add: grid_assign_outcome)
  have step: "fill_cells pixels n (rc # cells) s = fill_cells pixels n cells ?s1"
    unfolding rc fill_cells_Cons using ok by (simp add: Let_def cell_colour_def)
  have ih: "fst (fill_cells pixels n cells ?s1) = Done
       \<and> (\<forall>i j. i < length (legoGrid ?s1) \<longrightarrow>
            cell_at (snd (fill_cells pixels n cells ?s1)) i j
              = (if (i, j) \<in> set cells then Color (cell_colour pixels n i j) else cell_at ?s1 i j))"
    using Cons.prems by (intro Cons.IH) (simp_all add: lg)
  have c1: "cell_at ?s1 i j = (if i = row \<and> j = col then ?c else cell_at s i j)"
    if "i < length (legoGrid s)" for i j
    using cell_at_grid_assign [OF Cons.prems(1) _ _ that, of "int row" "int col" ?c j] row
    by simp
  show ?case
    unfolding step using ih c1 by (auto simp: lg rc)
qed

lemma fill_cells_append:
  "fst (fill_cells pixels n xs s) = Done \<Longrightarrow>
     fill_cells pixels n (xs @ ys) s = fill_cells pixels n ys (snd (fill_cells pixels n xs s))"
proof (induction xs arbitrary: s)
  case Nil
  then show ?case by simp
next
  case (Cons rc xs)
  obtain row col where rc: "rc = (row, col)" by (cases rc)
  let ?c = "Color (findClosestLegoColor (pixel_read pixels ((row * n + col) * 4))
                                        (pixel_read pixels ((row * n + col) * 4 + 1))
                                        (pixel_read pixels ((row * n + col) * 4 + 2)))"
  let ?s1 = "snd (grid_assign (int row) (int col) ?c s)"
  have ok: "fst (grid_assign (int row) (int col) ?c s) = Done"
  proof (rule ccontr)
    assume n: "fst (grid_assign (int row) (int col) ?c s) \<noteq> Done"
    then have "fill_cells pixels n (rc # xs) s = grid_assign (int row) (int col) ?c s"
      unfolding rc fill_cells_Cons by (simp add: Let_def)
    with Cons.prems n show False by simp
  qed
  then have "fill_cells pixels n (rc # xs) s = fill_cells pixels n xs ?s1"
    and "fill_cells pixels n ((rc # xs) @ ys) s = fill_cells pixels n (xs @ ys) ?s1"
    unfolding rc append_Cons fill_cells_Cons by (simp_all add: Let_def)
  then show ?case
    using Cons.IH [of ?s1] Cons.prems by simp
qed

lemma product_append: "List.product (xs @ ys) zs = List.product xs zs @ List.product ys zs"
  by (induction xs) simp_all

text \<open>
  The two loops as a whole: they end normally when the grid has a row for each of the
  \<open>n\<close> rows they visit, and in a \<^verbatim>\<open>TypeError\<close> at the first missing row otherwise;
  either way every cell \<open>(i, j)\<close> with \<open>i, j < n\<close> of a row that the grid has is set.
\<close>

lemma fill_cells_grid:
  assumes "distinct (legoGrid s)"
  shows "fst (fill_cells pixels n (List.product [0..<n] [0..<n]) s)
           = (if n \<le> length (legoGrid s) then Done else TypeError)"
    and "i < length (legoGrid s) \<Longrightarrow>
           cell_at (snd (fill_cells pixels n (List.product [0..<n] [0..<n]) s)) i j
             = (if i < n \<and> j < n then Color (cell_colour pixels n i j) else cell_at s i j)"
proof -
  let ?m = "length (legoGrid s)"
  have both: "fst (fill_cells pixels n (List.product [0..<n] [0..<n]) s)
           = (if n \<le> ?m then Done else TypeError)
      \<and> (\<forall>i j. i < ?m \<longrightarrow>
           cell_at (snd (fill_cells pixels n (List.product [0..<n] [0..<n]) s)) i j
             = (if i < n \<and> j < n then Color (cell_colour pixels n i j) else cell_at s i j))"
  proof (cases "n \<le> ?m")
    case True
    have "\<forall>rc \<in> set (List.product [0..<n] [0..<n]). fst rc < ?m"
      using True by auto
    from fill_cells_result [OF assms this, of pixels n] True
    show ?thesis by simp
  next
    case False
    then have mn: "?m < n" by simp
    let ?A = "List.product [0..<?m] [0..<n]"
    let ?B = "List.product [?m..<n] [0..<n]"
    let ?s1 = "snd (fill_cells pixels n ?A s)"
    have "[0..<?m + (n - ?m)] = [0..<?m] @ [?m..<?m + (n - ?m)]"
      by (rule upt_add_eq_append) simp
    then have "[0..<n] = [0..<?m] @ [?m..<n]"
      using mn by simp
    then have split: "List.product [0..<n] [0..<n] = ?A @ ?B"
      by (simp add: product_append [symmetric])
    have "\<forall>rc \<in> set ?A. fst rc < ?m" by auto
    note A = fill_cells_result [OF assms this, of pixels n]
    have lg: "legoGrid ?s1 = legoGrid s"
      using touches_live_fill_cells [of s pixels n ?A] by (simp add: touches_live_def)
    have "[?m..<n] = ?m # [Suc ?m..<n]" "[0..<n] = 0 # [Suc 0..<n]"
      using mn by (simp_all add: upt_conv_Cons)
    then obtain rest where B: "?B = (?m, 0) # rest"
      by (metis list.simps(9) List.product.simps(2) append_Cons)
    have "fill_cells pixels n ?B ?s1 = (TypeError, ?s1)"
      unfolding B fill_cells_Cons by (simp add: Let_def grid_assign_def lg)
    moreover have "fill_cells pixels n (?A @ ?B) s = fill_cells pixels n ?B ?s1"
      using A by (intro fill_cells_append) simp
    ultimately have r: "fill_cells pixels n (List.product [0..<n] [0..<n]) s = (TypeError, ?s1)"
      unfolding split by simp
    show ?thesis
      unfolding r using A mn False by auto
  qed
  show "fst (fill_cells pixels n (List.product [0..<n] [0..<n]) s)
           = (if n \<le> length (legoGrid s) then Done else TypeError)"
    using both by blast
  show "i < length (legoGrid s) \<Longrightarrow>
           cell_at (snd (fill_cells pixels n (List.product [0..<n] [0..<n]) s)) i j
             = (if i < n \<and> j < n then Color (cell_colour pixels n i j) else cell_at s i j)"
    using both by blast
qed

lemma processImageToLego_cell:
  assumes "wf_state s" and "draw img (canvasSize s) = Some pixels"
  shows "fst (processImageToLego draw img s)
           = (if canvasSize s \<le> length (legoGrid s) \<and> legoGrid s \<noteq> [] \<and> page_fits s
              then Done else TypeError)"
    and "row < length (legoGrid s) \<Longrightarrow> row < canvasSize s \<Longrightarrow> col < canvasSize s \<Longrightarrow>
           cell_at (snd (processImageToLego draw img s)) row col
             = Color (cell_colour pixels (canvasSize s) row col)"
proof -
  let ?n = "canvasSize s"
  let ?r = "fill_cells pixels ?n (List.product [0..<?n] [0..<?n]) (saveState s)"
  have d: "distinct (legoGrid (saveState s))"
    using assms(1) by (simp add: saveState_globals wf_state_def)
  note f = fill_cells_grid [where pixels = pixels and n = ?n, OF d]
  have t: "touches_live (saveState s) (snd ?r)"
    by (rule touches_live_fill_cells)
  then have lg: "legoGrid (snd ?r) = legoGrid s" and br: "bricks (snd ?r) = bricks s"
    by (simp_all add: touches_live_def saveState_globals)
  have pf: "page_fits (snd ?r) = page_fits s"
    by (rule page_fits_cong) (simp_all add: lg br)
  show "fst (processImageToLego draw img s)
           = (if canvasSize s \<le> length (legoGrid s) \<and> legoGrid s \<noteq> [] \<and> page_fits s
              then Done else TypeError)"
    using outcome_processImageToLego [where draw = draw and img = img and r = ?r, OF assms(2) refl] f(1)
    by (simp add: saveState_globals lg pf redrawCanvas_eq)
  assume "row < length (legoGrid s)" "row < canvasSize s" "col < canvasSize s"
  then show "cell_at (snd (processImageToLego draw img s)) row col
             = Color (cell_colour pixels (canvasSize s) row col)"
    using f(2) [of row col] by (simp add: processImageToLego_alt assms(2) saveState_globals)
qed

subsection \<open>What the nearest-neighbour canvas returns\<close>

lemma concat_uniform_nth:
  assumes "\<forall>xs \<in> set xss. length xs = m" and "i < length xss" and "k < m"
  shows "concat xss ! (i * m + k) = xss ! i ! k"
  using assms
proof (induction xss arbitrary: i)
  case Nil
  then show ?case by simp
next
  case (Cons xs xss)
  from Cons.prems(1) have len: "length xs = m" by simp
  show ?case
  proof (cases i)
    case 0
    then show ?thesis using Cons.prems(3) len by (simp add: nth_append)
  next
    case (Suc i')
    have "concat xss ! (i' * m + k) = xss ! i' ! k"
      using Cons.prems Suc by (intro Cons.IH) simp_all
    moreover have "Suc i' * m + k = length xs + (i' * m + k)"
      by (simp add: len)
    ultimately show ?thesis
      using Suc by (simp only: concat.simps nth_append_length_plus nth_Cons_Suc)
  qed
qed

lemma concat_uniform_length:
  "\<forall>xs \<in> set xss. length xs = m \<Longrightarrow> length (concat xss) = length xss * m"
  by (induction xss) simp_all

lemma pixel_inside:
  assumes "x < w" and "y < h"
  shows "(y * w + x) * 4 + 4 \<le> 4 * w * (h::nat)"
proof -
  have "y * w + x < Suc y * w" using assms(1) by simp
  also have "\<dots> \<le> h * w" using assms(2) by (intro mult_le_mono1) simp
  finally have "y * w + x + 1 \<le> h * w" by simp
  then have "(y * w + x + 1) * 4 \<le> (h * w) * 4" by (rule mult_le_mono1)
  then show ?thesis by (simp add: algebra_simps)
qed

lemma source_pixel_nth:
  assumes "length (img_data img) = 4 * img_width img * img_height img"
    and "x < img_width img" and "y < img_height img"
  shows "length (source_pixel img x y) = 4"
    and "k < 4 \<Longrightarrow> source_pixel img x y ! k = img_data img ! ((y * img_width img + x) * 4 + k)"
proof -
  have le: "(y * img_width img + x) * 4 + 4 \<le> length (img_data img)"
    unfolding assms(1) by (rule pixel_inside [OF assms(2,3)])
  then show "length (source_pixel img x y) = 4"
    by (simp add: source_pixel_def)
  assume "k < 4"
  then show "source_pixel img x y ! k = img_data img ! ((y * img_width img + x) * 4 + k)"
    using le by (simp add: source_pixel_def)
qed

lemma scaled_coordinate: "c < n \<Longrightarrow> 0 < w \<Longrightarrow> c * w div n < (w::nat)"
proof -
  assume "c < n" and "0 < w"
  then have "c * w < w * n" by (simp add: mult.commute)
  then show ?thesis by (rule less_mult_imp_div_less)
qed

lemma product_upt_nth:
  assumes "row < n" and "col < n"
  shows "row * n + col < length (List.product [0..<n] [0..<n])"
    and "List.product [0..<n] [0..<n] ! (row * n + col) = (row, col)"
proof -
  have "row * n + col < Suc row * n" using assms(2) by simp
  also have "\<dots> \<le> n * n" using assms(1) by (intro mult_le_mono1) simp
  finally have lt: "row * n + col < n * n" .
  then show "row * n + col < length (List.product [0..<n] [0..<n])" by simp
  have "(row * n + col) div n = row" "(row * n + col) mod n = col"
    using assms(2) by simp_all
  moreover have "(row * n + col) div n < n" "(row * n + col) mod n < n"
    using assms calculation by simp_all
  ultimately show "List.product [0..<n] [0..<n] ! (row * n + col) = (row, col)"
    using lt by (simp add: product_nth)
qed

lemma nearestNeighbor_pixels:
  assumes "nearestNeighbor img n = Some pixels"
    and "length (img_data img) = 4 * img_width img * img_height img"
    and "0 < img_width img" and "0 < img_height img"
    and "row < n" and "col < n" and "k < 4"
  shows "pixel_read pixels ((row * n + col) * 4 + k)
           = Some (int (img_data img ! (source_index img n row col * 4 + k)))"
proof -
  let ?f = "\<lambda>(row, col). source_pixel img (col * img_width img div n) (row * img_height img div n)"
  let ?chunks = "map ?f (List.product [0..<n] [0..<n])"
  have px: "pixels = concat ?chunks"
    using assms(1) by (simp add: nearestNeighbor_def)
  have uni: "\<forall>xs \<in> set ?chunks. length xs = 4"
  proof
    fix xs assume "xs \<in> set ?chunks"
    then obtain r c where "r < n" "c < n"
      and xs: "xs = source_pixel img (c * img_width img div n) (r * img_height img div n)"
      by auto
    then show "length xs = 4"
      unfolding xs using assms(2,3,4)
      by (intro source_pixel_nth(1)) (simp_all add: scaled_coordinate)
  qed
  have i: "row * n + col < length ?chunks"
    using product_upt_nth(1) [OF assms(5,6)] by simp
  have "pixels ! ((row * n + col) * 4 + k) = ?chunks ! (row * n + col) ! k"
    unfolding px by (rule concat_uniform_nth [OF uni i assms(7)])
  also have "\<dots> = source_pixel img (col * img_width img div n) (row * img_height img div n) ! k"
    using product_upt_nth [OF assms(5,6)] by simp
  also have "\<dots> = img_data img ! (source_index img n row col * 4 + k)"
    unfolding source_index_def using assms
    by (intro source_pixel_nth(2)) (simp_all add: scaled_coordinate)
  finally have v: "pixels ! ((row * n + col) * 4 + k) = img_data img ! (source_index img n row col * 4 + k)" .
  have "length pixels = length ?chunks * 4"
    unfolding px by (rule concat_uniform_length [OF uni])
  then have "(row * n + col) * 4 + k < length pixels"
    using i assms(7) by simp
  then have "pixel_read pixels ((row * n + col) * 4 + k)
               = Some (int (pixels ! ((row * n + col) * 4 + k)))"
    by (simp only: pixel_read_def if_True)
  then show ?thesis
    by (simp only: v)
qed

subsection \<open>Two concrete pictures on a 2 by 2 grid\<close>


lemma boxFilter_corner:
  "boxFilter corner_picture 2 =
     Some [191, 191, 191, 255, 255, 255, 255, 255, 255, 255, 255, 255, 255, 255, 255, 255]"
  by code_simp

lemma gradient_data: "img_data gradient_picture ! 40 = 160" "img_data gradient_picture ! 41 = 80"
  "img_data gradient_picture ! 42 = 95" "img_data gradient_picture ! 0 = 0"
  "img_data gradient_picture ! 1 = 0" "img_data gradient_picture ! 2 = 255"
  "length (img_data gradient_picture) = 64"
  "img_data gradient_picture ! Suc 0 = 0" "img_data gradient_picture ! Suc (Suc 0) = 255"
  by code_simp+

lemma corner_data: "img_data corner_picture ! 0 = 0" "img_data corner_picture ! 1 = 0"
  "img_data corner_picture ! 2 = 0"
  by code_simp+

lemmas closest_eval = findClosestLegoColor_def legoColors_def closest_step_def distance_def
  hexToRgb_def parseInt16_def is_blank_def substring_def hexDigit_def Math_sqrt_def js_add_def js_sub_def
  Math_pow2_def Let_def

lemma closest_smoothed: "findClosestLegoColor (Some 191) (Some 191) (Some 191) = ''#E4ADC8''"
  by (simp add: closest_eval)

lemma closest_black: "findClosestLegoColor (Some 0) (Some 0) (Some 0) = ''#05131D''"
  by (simp add: closest_eval)

lemma small_canvas:
  "wf_state (canvasSizeChange 2 True startup)"
  "canvasSize (canvasSizeChange 2 True startup) = 2"
  "length (legoGrid (canvasSizeChange 2 True startup)) = 2"
  "page_fits (canvasSizeChange 2 True startup)"
proof -
  show "wf_state (canvasSizeChange 2 True startup)"
    by (rule wf_canvasSizeChange [OF wf_startup])
  show "canvasSize (canvasSizeChange 2 True startup) = 2"
    by (rule resize_effect(2))
  show "length (legoGrid (canvasSizeChange 2 True startup)) = 2"
    by (simp add: canvasSizeChange_confirmed initializeCanvas_globals)
  show "page_fits (canvasSizeChange 2 True startup)"
    by (auto simp: page_fits_def canvasSizeChange_confirmed initializeCanvas_globals)
qed

text \<open>
  A declined size change: the handler has set \<open>canvasSize\<close> to 48 before it asks, and
  leaves it there; the grid and the page keep their 32 rows.
\<close>

lemma declined_canvas:
  "wf_state (canvasSizeChange 48 False startup)"
  "canvasSize (canvasSizeChange 48 False startup) = 48"
  "length (legoGrid (canvasSizeChange 48 False startup)) = 32"
proof -
  show "wf_state (canvasSizeChange 48 False startup)"
    by (rule wf_canvasSizeChange [OF wf_startup])
  show "canvasSize (canvasSizeChange 48 False startup) = 48"
    by (simp add: canvasSizeChange_def)
  show "length (legoGrid (canvasSizeChange 48 False startup)) = 32"
    by (simp add: canvasSizeChange_def legoGrid_startup)
qed

text \<open>
  Claim C2, as the specification states it, fails on the script, which leaves the
  resampling to the canvas. With a canvas that smooths, a 4 by 4 picture whose top left
  pixel is black and whose other pixels are white, and a 2 by 2 grid, cell (0, 0) becomes
  Light Purple, the nearest colour of the mean of four source pixels; the nearest
  colour of source pixel (0, 0) alone is Black.
\<close>

theorem generation_smoothed_counterexample:
  "cell_at (snd (processImageToLego boxFilter corner_picture (canvasSizeChange 2 True startup))) 0 0
     = Color ''#E4ADC8''
   \<and> source_index corner_picture 2 0 0 = 0
   \<and> Color (findClosestLegoColor (Some (int (img_data corner_picture ! 0)))
                                  (Some (int (img_data corner_picture ! 1)))
                                  (Some (int (img_data corner_picture ! 2))))
     = Color ''#05131D''
   \<and> cell_at (snd (processImageToLego boxFilter corner_picture (canvasSizeChange 2 True startup))) 0 0
     \<noteq> Color (findClosestLegoColor (Some (int (img_data corner_picture ! 0)))
                                     (Some (int (img_data corner_picture ! 1)))
                                     (Some (int (img_data corner_picture ! 2))))"
proof -
  let ?s = "canvasSizeChange 2 True startup"
  let ?pixels = "[191, 191, 191, 255, 255, 255, 255, 255, 255, 255, 255, 255, 255, 255, 255, 255]"
  have "cell_at (snd (processImageToLego boxFilter corner_picture ?s)) 0 0
          = Color (cell_colour ?pixels (canvasSize ?s) 0 0)"
    by (rule processImageToLego_cell(2) [where draw = boxFilter and img = corner_picture,
          OF small_canvas(1)])
       (simp_all add: small_canvas boxFilter_corner)
  also have "\<dots> = Color ''#E4ADC8''"
    by (simp add: cell_colour_def pixel_read_def closest_smoothed)
  finally have a: "cell_at (snd (processImageToLego boxFilter corner_picture ?s)) 0 0
                     = Color ''#E4ADC8''" .
  have b: "source_index corner_picture 2 0 0 = 0"
    by (simp add: source_index_def)
  have c: "findClosestLegoColor (Some (int (img_data corner_picture ! 0)))
             (Some (int (img_data corner_picture ! 1))) (Some (int (img_data corner_picture ! 2)))
           = ''#05131D''"
    by (simp only: corner_data) (simp add: closest_black)
  show ?thesis
    unfolding a c using b by simp
qed

text \<open>
  Claim C2, amended. \<open>processImageToLego\<close> computes no source coordinate. It asks the
  canvas for the picture scaled to \<open>size \<times> size\<close>, where \<open>size\<close> is \<open>canvasSize\<close>.
  Provided the canvas returns a buffer (\<^verbatim>\<open>drawImage\<close> does not throw), every cell
  \<open>(row, col)\<close> with \<open>row, col < size\<close> in a row that the grid has is set to the nearest
  palette colour of the three bytes at index \<open>(row * size + col) * 4\<close> of that buffer:
  one pixel of the scaled picture per cell, with no averaging by the script. Which
  source pixels that pixel stands for is decided by the canvas. When the canvas
  resamples by nearest neighbour, the cell gets the nearest colour of the single source
  pixel in column \<open>floor(col * sourceWidth / size)\<close> and row
  \<open>floor(row * sourceHeight / size)\<close>.

  The handler ends normally exactly when the grid has at least \<open>size\<close> rows and a row
  for every brick of the page. When the grid has fewer than \<open>size\<close> rows (\<open>canvasSize\<close>
  is changed by a size change that the user declines), the loop throws a
  \<^verbatim>\<open>TypeError\<close> at the first missing row, after the rows that exist were set; when
  the page has a brick whose row the grid lacks, \<^verbatim>\<open>redrawCanvas\<close> throws a
  \<^verbatim>\<open>TypeError\<close> after all cells were set.
\<close>

theorem generation_reads_scaled_buffer:
  assumes "wf_state s" and "draw img (canvasSize s) = Some pixels"
    and "row < canvasSize s" and "col < canvasSize s" and "row < length (legoGrid s)"
  shows "cell_at (snd (processImageToLego draw img s)) row col
           = Color (findClosestLegoColor
                      (pixel_read pixels ((row * canvasSize s + col) * 4))
                      (pixel_read pixels ((row * canvasSize s + col) * 4 + 1))
                      (pixel_read pixels ((row * canvasSize s + col) * 4 + 2)))
       \<and> (draw = nearestNeighbor \<and> 0 < img_width img \<and> 0 < img_height img
            \<and> length (img_data img) = 4 * img_width img * img_height img \<longrightarrow>
            cell_at (snd (processImageToLego draw img s)) row col
              = Color (findClosestLegoColor
                         (Some (int (img_data img ! (source_index img (canvasSize s) row col * 4))))
                         (Some (int (img_data img ! (source_index img (canvasSize s) row col * 4 + 1))))
                         (Some (int (img_data img ! (source_index img (canvasSize s) row col * 4 + 2))))))
       \<and> fst (processImageToLego draw img s)
           = (if canvasSize s \<le> length (legoGrid s) \<and> page_fits s then Done else TypeError)"
proof (intro conjI impI)
  have "legoGrid s \<noteq> []" using assms(5) by auto
  then show "fst (processImageToLego draw img s)
           = (if canvasSize s \<le> length (legoGrid s) \<and> page_fits s then Done else TypeError)"
    using processImageToLego_cell(1) [where draw = draw and img = img, OF assms(1,2)] by simp
  show c: "cell_at (snd (processImageToLego draw img s)) row col
           = Color (findClosestLegoColor
                      (pixel_read pixels ((row * canvasSize s + col) * 4))
                      (pixel_read pixels ((row * canvasSize s + col) * 4 + 1))
                      (pixel_read pixels ((row * canvasSize s + col) * 4 + 2)))"
    using processImageToLego_cell(2) [where draw = draw and img = img, OF assms(1,2,5,3,4)]
    by (simp add: cell_colour_def)
  assume nn: "draw = nearestNeighbor \<and> 0 < img_width img \<and> 0 < img_height img
            \<and> length (img_data img) = 4 * img_width img * img_height img"
  then have p: "nearestNeighbor img (canvasSize s) = Some pixels"
    using assms(2) by simp
  have r: "pixel_read pixels ((row * canvasSize s + col) * 4 + k)
             = Some (int (img_data img ! (source_index img (canvasSize s) row col * 4 + k)))"
    if "k < 4" for k
    using nn by (intro nearestNeighbor_pixels [OF p _ _ _ assms(3,4) that]) simp_all
  show "cell_at (snd (processImageToLego draw img s)) row col
          = Color (findClosestLegoColor
                     (Some (int (img_data img ! (source_index img (canvasSize s) row col * 4))))
                     (Some (int (img_data img ! (source_index img (canvasSize s) row col * 4 + 1))))
                     (Some (int (img_data img ! (source_index img (canvasSize s) row col * 4 + 2)))))"
    unfolding c using r [of 0] r [of 1] r [of 2] by simp
qed

text \<open>
  The example of the specification, on a nearest-neighbour canvas: with \<open>size = 2\<close> and
  a 4 by 4 source, cell (0, 0) takes source pixel (0, 0), the pixel of index 0, and
  cell (1, 1) takes source pixel (2, 2), the pixel of index \<open>2 * 4 + 2 = 10\<close>; the
  handler ends normally. After a declined change of the size to 48, cell (0, 0) is set
  from source pixel (0, 0) as well, and the handler ends in a \<^verbatim>\<open>TypeError\<close>: the grid
  has 32 rows.
\<close>

theorem generation_reads_scaled_buffer_witness:
  "wf_state (canvasSizeChange 2 True startup)
   \<and> canvasSize (canvasSizeChange 2 True startup) = 2
   \<and> source_index gradient_picture 2 0 0 = 0
   \<and> source_index gradient_picture 2 1 1 = 2 * 4 + 2
   \<and> fst (processImageToLego nearestNeighbor gradient_picture (canvasSizeChange 2 True startup)) = Done
   \<and> cell_at (snd (processImageToLego nearestNeighbor gradient_picture (canvasSizeChange 2 True startup))) 0 0
       = Color (findClosestLegoColor (Some 0) (Some 0) (Some 255))
   \<and> cell_at (snd (processImageToLego nearestNeighbor gradient_picture (canvasSizeChange 2 True startup))) 1 1
       = Color (findClosestLegoColor (Some 160) (Some 80) (Some 95))
   \<and> wf_state (canvasSizeChange 48 False startup)
   \<and> canvasSize (canvasSizeChange 48 False startup) = 48
   \<and> length (legoGrid (canvasSizeChange 48 False startup)) = 32
   \<and> fst (processImageToLego nearestNeighbor gradient_picture (canvasSizeChange 48 False startup))
       = TypeError
   \<and> cell_at (snd (processImageToLego nearestNeighbor gradient_picture (canvasSizeChange 48 False startup))) 0 0
       = Color (findClosestLegoColor (Some 0) (Some 0) (Some 255))"
proof -
  let ?s = "canvasSizeChange 2 True startup"
  let ?d = "canvasSizeChange 48 False startup"
  obtain pixels where p: "nearestNeighbor gradient_picture (canvasSize ?s) = Some pixels"
    by (simp add: nearestNeighbor_def)
  obtain pixels' where p': "nearestNeighbor gradient_picture (canvasSize ?d) = Some pixels'"
    by (simp add: nearestNeighbor_def)
  have dims: "img_width gradient_picture = 4" "img_height gradient_picture = 4"
    by (simp_all add: gradient_picture_def)
  have i0: "source_index gradient_picture 2 0 0 = 0"
    and i1: "source_index gradient_picture 2 1 1 = 10"
    and i2: "source_index gradient_picture 48 0 0 = 0"
    by (simp_all add: source_index_def dims)
  have nn: "nearestNeighbor = nearestNeighbor \<and> 0 < img_width gradient_picture
      \<and> 0 < img_height gradient_picture
      \<and> length (img_data gradient_picture) = 4 * img_width gradient_picture * img_height gradient_picture"
    by (simp add: dims gradient_data)
  have le: "0 < canvasSize ?s" "1 < canvasSize ?s" "0 < length (legoGrid ?s)" "1 < length (legoGrid ?s)"
    by (simp_all add: small_canvas)
  have le': "0 < canvasSize ?d" "0 < length (legoGrid ?d)"
    by (simp_all add: declined_canvas)
  note a = generation_reads_scaled_buffer [where draw = nearestNeighbor and img = gradient_picture
      and row = 0 and col = 0, OF small_canvas(1) p le(1) le(1) le(3)]
  note b = generation_reads_scaled_buffer [where draw = nearestNeighbor and img = gradient_picture
      and row = 1 and col = 1, OF small_canvas(1) p le(2) le(2) le(4)]
  note c = generation_reads_scaled_buffer [where draw = nearestNeighbor and img = gradient_picture
      and row = 0 and col = 0, OF declined_canvas(1) p' le'(1) le'(1) le'(2)]
  have "fst (processImageToLego nearestNeighbor gradient_picture ?s) = Done"
    using a [THEN conjunct2, THEN conjunct2] by (simp add: small_canvas)
  moreover have "cell_at (snd (processImageToLego nearestNeighbor gradient_picture ?s)) 0 0
       = Color (findClosestLegoColor (Some 0) (Some 0) (Some 255))"
    using a [THEN conjunct2, THEN conjunct1, THEN mp, OF nn]
    by (simp add: small_canvas i0 gradient_data)
  moreover have "cell_at (snd (processImageToLego nearestNeighbor gradient_picture ?s)) 1 1
       = Color (findClosestLegoColor (Some 160) (Some 80) (Some 95))"
    using b [THEN conjunct2, THEN conjunct1, THEN mp, OF nn, unfolded small_canvas(2) i1]
    by (simp add: gradient_data)
  moreover have "fst (processImageToLego nearestNeighbor gradient_picture ?d) = TypeError"
    using c [THEN conjunct2, THEN conjunct2] by (simp add: declined_canvas)
  moreover have "cell_at (snd (processImageToLego nearestNeighbor gradient_picture ?d)) 0 0
       = Color (findClosestLegoColor (Some 0) (Some 0) (Some 255))"
    using c [THEN conjunct2, THEN conjunct1, THEN mp, OF nn, unfolded declined_canvas(2) i2]
    by (simp add: gradient_data)
  ultimately show ?thesis
    using i0 i1 by (simp add: small_canvas declined_canvas)
qed

end
